theory Spec2Isabelle
  imports Main "HOL-Library.AList" "HOL-Library.Multiset"
begin

section \<open>Python values used by \<^verbatim>\<open>vlmeval/vlm/llava_xtuner.py\<close>\<close>

text \<open>
  A Python \<^verbatim>\<open>str\<close> is a sequence of Unicode code points, so it is modelled as a list
  of natural numbers; \<open>S\<close> embeds an ASCII literal. Column names, dataset names and
  keyword names are plain identifiers and stay Isabelle strings.
\<close>

type_synonym pystr = "nat list"

definition S :: "string \<Rightarrow> pystr" where
  "S s = map of_char s"

datatype error =
    AssertionError
  | KeyError
  | TypeError
  | ValueError
  | SystemExit
  | LibraryError

text \<open>Sequencing of fallible steps: the first raised error ends the computation.\<close>

definition bind :: "error + 'a \<Rightarrow> ('a \<Rightarrow> error + 'b) \<Rightarrow> error + 'b" where
  "bind m f = (case m of Inl e \<Rightarrow> Inl e | Inr x \<Rightarrow> f x)"

definition py_assert :: "bool \<Rightarrow> error + unit" where
  "py_assert b = (if b then Inr () else Inl AssertionError)"

text \<open>\<^verbatim>\<open>os.path.join(a, b)\<close> on a POSIX system (\<^verbatim>\<open>posixpath.join\<close>), separator \<^verbatim>\<open>/\<close>.\<close>

definition sep :: nat where
  "sep = 47"

definition osp_join :: "pystr \<Rightarrow> pystr \<Rightarrow> pystr" where
  "osp_join a b =
     (if b \<noteq> [] \<and> hd b = sep then b
      else if a = [] \<or> last a = sep then a @ b
      else a @ [sep] @ b)"

section \<open>Construction of the adapter (\<^verbatim>\<open>LLaVA_XTuner.__init__\<close>)\<close>

text \<open>
  Values of generation options. \<open>POther\<close> stands for any Python value that is neither
  an integer, a boolean nor \<^verbatim>\<open>None\<close> (a float temperature, say), named by its
  printed form.
\<close>

datatype pyval = PInt int | PBool bool | PNone | POther string

type_synonym kwdict = "(string \<times> pyval) list"

text \<open>
  A loaded torch module is an opaque handle. The tokenizer is the object returned
  by \<^verbatim>\<open>AutoTokenizer.from_pretrained\<close>: its special token ids may be \<^verbatim>\<open>None\<close>;
  \<open>tok_encode add_special_tokens text\<close> is \<^verbatim>\<open>tokenizer(text, add_special_tokens=...)['input_ids']\<close>.
\<close>

type_synonym model = nat

record tokenizer =
  eos_token_id :: "int option"
  pad_token_id :: "int option"
  bos_token_id :: "int option"
  tok_encode :: "bool \<Rightarrow> pystr \<Rightarrow> int list"
  tok_decode :: "int list \<Rightarrow> pystr"

text \<open>
  A prompt template of xtuner's \<^verbatim>\<open>PROMPT_TEMPLATE\<close> registry is used only through
  \<^verbatim>\<open>template['INSTRUCTION'].format(input=...)\<close>; the registry is not part of this
  repository, so a template is that (fallible) wrapping function.
\<close>

type_synonym template = "pystr \<Rightarrow> error + pystr"

text \<open>
  Everything the constructor obtains from the file system and from third-party
  libraries. Each loader either raises or returns a handle.
\<close>

record loader =
  imports_ok :: bool
  isdir :: "pystr \<Rightarrow> bool"
  path_exists :: "pystr \<Rightarrow> bool"
  listdir :: "pystr \<Rightarrow> pystr list"
  get_cache_path :: "pystr \<Rightarrow> pystr option"
  snapshot_download :: "pystr \<Rightarrow> error + pystr"
  load_causal_lm :: "pystr \<Rightarrow> error + model"
  load_tokenizer :: "pystr \<Rightarrow> error + tokenizer"
  load_clip_vision :: "pystr \<Rightarrow> error + model"
  load_image_processor :: "pystr \<Rightarrow> error + model"
  load_peft :: "model \<Rightarrow> pystr \<Rightarrow> error + model"
  load_projector :: "pystr \<Rightarrow> error + model"
  to_cuda :: "model \<Rightarrow> error + model"
  PROMPT_TEMPLATE :: "string \<Rightarrow> template option"
  get_chat_utils :: "model \<Rightarrow> error + model"

record adapter =
  llm :: model
  tokenizer :: tokenizer
  visual_encoder :: model
  image_processor :: model
  projector :: model
  visual_select_layer :: int
  prompt_template :: "template option"
  stop_criteria :: model
  gen_config :: kwdict
  llm_source :: pystr
  visual_encoder_source :: pystr

text \<open>
  The last two fields keep the paths the language model and the visual encoder
  were loaded from, which the constructor prints (lines 63 and 78).
\<close>

text \<open>Lines 39-45: resolution of the bundle location.\<close>

definition resolve_llava_path :: "loader \<Rightarrow> pystr \<Rightarrow> error + pystr" where
  "resolve_llava_path L llava_path =
     bind (if \<not> isdir L llava_path then
             (case get_cache_path L llava_path of
                Some cache_path \<Rightarrow> Inr cache_path
              | None \<Rightarrow> snapshot_download L llava_path)
           else Inr llava_path)
       (\<lambda>llava_path.
          bind (py_assert (path_exists L llava_path \<and> isdir L llava_path))
            (\<lambda>_. Inr llava_path))"

text \<open>
  Lines 48-54 and 66-73: the path of a sub-model is the bundled subdirectory when
  the bundle has it, and then no explicit path may be given; otherwise the explicit
  path is mandatory.
\<close>

definition select_path :: "loader \<Rightarrow> pystr \<Rightarrow> string \<Rightarrow> pystr option \<Rightarrow> error + pystr" where
  "select_path L llava_path sub explicit =
     (if S sub \<in> set (listdir L llava_path) then
        bind (py_assert (explicit = None))
          (\<lambda>_. Inr (osp_join llava_path (S sub)))
      else
        (case explicit of
           None \<Rightarrow> Inl AssertionError
         | Some p \<Rightarrow> Inr p))"

text \<open>Lines 81-88: an optional low-rank adapter is merged into its base model.\<close>

definition load_adapter :: "loader \<Rightarrow> pystr \<Rightarrow> string \<Rightarrow> model \<Rightarrow> error + model" where
  "load_adapter L llava_path sub base =
     (if S sub \<in> set (listdir L llava_path)
      then load_peft L base (osp_join llava_path (S sub))
      else Inr base)"

text \<open>Lines 105-108.\<close>

definition select_template :: "loader \<Rightarrow> string option \<Rightarrow> error + template option" where
  "select_template L template_name =
     (case template_name of
        None \<Rightarrow> Inr None
      | Some name \<Rightarrow>
          (case PROMPT_TEMPLATE L name of
             None \<Rightarrow> Inl KeyError
           | Some t \<Rightarrow> Inr (Some t)))"

text \<open>Lines 112-117: the default generation options.\<close>

definition token_id_val :: "int option \<Rightarrow> pyval" where
  "token_id_val i = (case i of None \<Rightarrow> PNone | Some n \<Rightarrow> PInt n)"

definition kwargs_default :: "tokenizer \<Rightarrow> kwdict" where
  "kwargs_default t =
     [(''max_new_tokens'', PInt 100),
      (''do_sample'', PBool False),
      (''eos_token_id'', token_id_val (eos_token_id t)),
      (''pad_token_id'',
         (if pad_token_id t \<noteq> None then token_id_val (pad_token_id t)
          else token_id_val (eos_token_id t)))]"

text \<open>
  \<^verbatim>\<open>dict.update\<close>: each key of the argument, in its order, replaces the value of an
  existing key in place or is appended.
\<close>

definition dict_update :: "kwdict \<Rightarrow> kwdict \<Rightarrow> kwdict" where
  "dict_update d kw = foldl (\<lambda>d (k, v). AList.update k v d) d kw"

text \<open>Lines 118-122.\<close>

definition make_gen_config :: "tokenizer \<Rightarrow> kwdict \<Rightarrow> kwdict" where
  "make_gen_config t kwargs =
     (if length kwargs > 0 then dict_update (kwargs_default t) kwargs
      else kwargs_default t)"

text \<open>
  The constructor. The argument \<^verbatim>\<open>torch_dtype\<close> is only handed to the loaders and
  is part of them here. A missing optional dependency ends the process
  (\<^verbatim>\<open>exit(-1)\<close>). The warnings of lines 34 and 120 and the printed lines change no
  value and are left out.
\<close>

definition init ::
  "loader \<Rightarrow> pystr \<Rightarrow> pystr option \<Rightarrow> pystr option \<Rightarrow> int \<Rightarrow> string option \<Rightarrow> kwdict
     \<Rightarrow> error + adapter" where
  "init L llava_path0 llm_path0 visual_encoder_path0 select_layer template_name kwargs =
     (if \<not> imports_ok L then Inl SystemExit else
      bind (resolve_llava_path L llava_path0) (\<lambda>llava_path.
      bind (select_path L llava_path ''llm'' llm_path0) (\<lambda>llm_path.
      bind (load_causal_lm L llm_path) (\<lambda>llm0.
      bind (load_tokenizer L llm_path) (\<lambda>tok.
      bind (select_path L llava_path ''visual_encoder'' visual_encoder_path0)
        (\<lambda>visual_encoder_path.
      bind (load_clip_vision L visual_encoder_path) (\<lambda>ve0.
      bind (load_image_processor L visual_encoder_path) (\<lambda>ip.
      bind (load_adapter L llava_path ''llm_adapter'' llm0) (\<lambda>llm1.
      bind (load_adapter L llava_path ''visual_encoder_adapter'' ve0) (\<lambda>ve1.
      bind (load_projector L (osp_join llava_path (S ''projector''))) (\<lambda>pr.
      bind (to_cuda L llm1) (\<lambda>llm2.
      bind (to_cuda L ve1) (\<lambda>ve2.
      bind (to_cuda L pr) (\<lambda>pr2.
      bind (select_template L template_name) (\<lambda>tmpl.
      bind (get_chat_utils L llm2) (\<lambda>stop.
        Inr \<lparr> llm = llm2, tokenizer = tok, visual_encoder = ve2,
              image_processor = ip, projector = pr2,
              visual_select_layer = select_layer, prompt_template = tmpl,
              stop_criteria = stop, gen_config = make_gen_config tok kwargs,
              llm_source = llm_path,
              visual_encoder_source = visual_encoder_path \<rparr>))))))))))))))))"

text \<open>
  The steps of lines 48-63 went through: the path of the language model was
  chosen, and the model and its tokenizer were loaded from it.
\<close>

definition llm_stage_ok :: "loader \<Rightarrow> pystr \<Rightarrow> pystr option \<Rightarrow> bool" where
  "llm_stage_ok L llava_path llm_path0 =
     (case select_path L llava_path ''llm'' llm_path0 of
        Inl _ \<Rightarrow> False
      | Inr llm_path \<Rightarrow>
          (case load_causal_lm L llm_path of
             Inl _ \<Rightarrow> False
           | Inr _ \<Rightarrow> (case load_tokenizer L llm_path of Inl _ \<Rightarrow> False | Inr _ \<Rightarrow> True)))"

text \<open>Looking an option up in a generation configuration.\<close>

definition option_of :: "kwdict \<Rightarrow> string \<Rightarrow> pyval option" where
  "option_of d k = map_of d k"

section \<open>Prompt assembly (\<^verbatim>\<open>LLaVA_XTuner.build_prompt\<close>)\<close>

text \<open>
  A row of a benchmark table. The image payload is one base64 string or a list of
  them, \<^verbatim>\<open>image_path\<close> is a list of file names, and every other column
  (\<^verbatim>\<open>index\<close>, \<^verbatim>\<open>question\<close>, \<^verbatim>\<open>hint\<close>, \<^verbatim>\<open>A\<close> .. \<^verbatim>\<open>E\<close>, ...) holds a scalar: a
  string, an integer, or the missing value of pandas. Columns are kept in the order
  of the table; a column that is not there is a \<^verbatim>\<open>KeyError\<close> when it is read.
\<close>

datatype cell = Str pystr | Num int | NaN

datatype image_cell = Single pystr | Multi "pystr list"

record row =
  row_image :: "image_cell option"
  row_image_path :: "pystr list option"
  row_cols :: "(string \<times> cell) list"

definition get_col :: "row \<Rightarrow> string \<Rightarrow> error + cell" where
  "get_col line k = (case map_of (row_cols line) k of None \<Rightarrow> Inl KeyError | Some v \<Rightarrow> Inr v)"

definition pd_isna :: "cell \<Rightarrow> bool" where
  "pd_isna c = (case c of NaN \<Rightarrow> True | _ \<Rightarrow> False)"

text \<open>\<^verbatim>\<open>str(n)\<close> of an integer, as an f-string inserts it.\<close>

function str_nat :: "nat \<Rightarrow> pystr" where
  "str_nat n = (if n < 10 then [48 + n] else str_nat (n div 10) @ [48 + n mod 10])"
  by pat_completeness auto
termination
  by (relation "measure id") auto

declare str_nat.simps [simp del]

definition str_int :: "int \<Rightarrow> pystr" where
  "str_int i = (if i < 0 then 45 # str_nat (nat (- i)) else str_nat (nat i))"

definition str_cell :: "cell \<Rightarrow> pystr" where
  "str_cell c = (case c of Str s \<Rightarrow> s | Num i \<Rightarrow> str_int i | NaN \<Rightarrow> S ''nan'')"

text \<open>
  The operator \<^verbatim>\<open>+\<close> on cells: strings concatenate, numbers add, and a string
  with anything else is a \<^verbatim>\<open>TypeError\<close>.
\<close>

fun py_add :: "cell \<Rightarrow> cell \<Rightarrow> error + cell" where
  "py_add (Str a) (Str b) = Inr (Str (a @ b))"
| "py_add (Str a) (Num b) = Inl TypeError"
| "py_add (Str a) NaN = Inl TypeError"
| "py_add (Num a) (Str b) = Inl TypeError"
| "py_add NaN (Str b) = Inl TypeError"
| "py_add (Num a) (Num b) = Inr (Num (a + b))"
| "py_add (Num a) NaN = Inr NaN"
| "py_add NaN (Num b) = Inr NaN"
| "py_add NaN NaN = Inr NaN"

text \<open>
  Modelled from the spec: \<^verbatim>\<open>cn_string\<close> of \<^verbatim>\<open>vlmeval.smp\<close>, which is not among the
  sources. The spec calls it a simple script-membership check for text containing
  at least one CJK ideograph; the CJK Unified Ideographs are U+4E00 .. U+9FFF.
\<close>

definition is_cjk :: "nat \<Rightarrow> bool" where
  "is_cjk c = (19968 \<le> c \<and> c \<le> 40959)"

definition cn_string :: "pystr \<Rightarrow> bool" where
  "cn_string s = list_ex is_cjk s"

text \<open>The two instruction suffixes of lines 161-164; the Chinese one by code points.\<close>

definition english_suffix :: pystr where
  "english_suffix =
     S ''Answer with the option'' @ [39] @ S ''s letter from the given choices directly.''"

definition chinese_suffix :: pystr where
  "chinese_suffix = [35831, 30452, 25509, 22238, 31572, 36873, 39033, 23383, 27597, 12290]"

definition newline :: pystr where
  "newline = [10]"

text \<open>
  The image cache on disk: the files with their decoded content, the directories
  made, and the trace of the calls of \<^verbatim>\<open>decode_base64_to_image_file\<close> (the path each
  call wrote), in the order they happened.
\<close>

type_synonym image_file = "nat list"

record world =
  files :: "pystr \<Rightarrow> image_file option"
  dirs :: "pystr set"
  writes :: "pystr list"

text \<open>
  What \<^verbatim>\<open>build_prompt\<close> takes from \<^verbatim>\<open>vlmeval.utils\<close> and \<^verbatim>\<open>vlmeval.smp\<close>, none of it
  among the sources: the table \<^verbatim>\<open>img_root_map\<close> (a dict, read at the \<^verbatim>\<open>dataset\<close>
  argument, which may be \<^verbatim>\<open>None\<close>), the function \<^verbatim>\<open>DATASET_TYPE\<close>, the base64 image
  decoder (\<open>None\<close> when it raises) and the test that a stored file opens as
  an image.
\<close>

record env =
  img_root_map :: "string option \<Rightarrow> pystr option"
  DATASET_TYPE :: "string \<Rightarrow> string"
  decode_base64 :: "pystr \<Rightarrow> image_file option"
  image_ok :: "image_file \<Rightarrow> bool"

text \<open>
  Modelled from the spec: \<^verbatim>\<open>read_ok\<close> of \<^verbatim>\<open>vlmeval.smp\<close> (not among the sources):
  the target file already exists and is verified readable.
\<close>

definition read_ok :: "env \<Rightarrow> world \<Rightarrow> pystr \<Rightarrow> bool" where
  "read_ok E w path = (case files w path of None \<Rightarrow> False | Some f \<Rightarrow> image_ok E f)"

text \<open>
  Modelled from the spec: \<^verbatim>\<open>decode_base64_to_image_file\<close> of \<^verbatim>\<open>vlmeval.smp\<close> (not
  among the sources): the image is decoded and written at the target path.
\<close>

definition decode_base64_to_image_file ::
  "env \<Rightarrow> pystr \<Rightarrow> pystr \<Rightarrow> world \<Rightarrow> (error + unit) \<times> world" where
  "decode_base64_to_image_file E img path w =
     (case decode_base64 E img of
        None \<Rightarrow> (Inl LibraryError, w)
      | Some f \<Rightarrow> (Inr (), w\<lparr>files := (files w)(path \<mapsto> f), writes := writes w @ [path]\<rparr>))"

definition makedirs :: "pystr \<Rightarrow> world \<Rightarrow> world" where
  "makedirs d w = w\<lparr>dirs := insert d (dirs w)\<rparr>"

text \<open>Lines 131-136: the loop over \<^verbatim>\<open>zip(line['image'], line['image_path'])\<close>.\<close>

fun save_images ::
  "env \<Rightarrow> pystr \<Rightarrow> (pystr \<times> pystr) list \<Rightarrow> pystr list \<Rightarrow> world
     \<Rightarrow> (error + pystr list) \<times> world" where
  "save_images E img_root [] tgt_path w = (Inr tgt_path, w)"
| "save_images E img_root ((img, im_name) # rest) tgt_path w =
     (let path = osp_join img_root im_name in
      if \<not> read_ok E w path then
        (case decode_base64_to_image_file E img path w of
           (Inl e, w') \<Rightarrow> (Inl e, w')
         | (Inr _, w') \<Rightarrow> save_images E img_root rest (tgt_path @ [path]) w')
      else save_images E img_root rest (tgt_path @ [path]) w)"

datatype image_out = Path pystr | Paths "pystr list"

text \<open>The returned dict \<^verbatim>\<open>{'image': tgt_path, 'text': prompt}\<close>.\<close>

record prompt =
  out_image :: image_out
  out_text :: cell

text \<open>
  Lines 126-140. The assertion of line 126 holds by the type of \<open>dataset\<close>.
\<close>

definition build_images ::
  "env \<Rightarrow> row \<Rightarrow> string option \<Rightarrow> world \<Rightarrow> (error + image_out) \<times> world" where
  "build_images E line dataset w =
     (case img_root_map E dataset of
        None \<Rightarrow> (Inl KeyError, w)
      | Some r \<Rightarrow>
          (let img_root = osp_join (S ''images'') r;
               w1 = makedirs img_root w
           in case row_image line of
                None \<Rightarrow> (Inl KeyError, w1)
              | Some (Multi imgs) \<Rightarrow>
                  (case row_image_path line of
                     None \<Rightarrow> (Inl KeyError, w1)
                   | Some names \<Rightarrow>
                       (case save_images E img_root (zip imgs names) [] w1 of
                          (Inl e, w2) \<Rightarrow> (Inl e, w2)
                        | (Inr ps, w2) \<Rightarrow> (Inr (Paths ps), w2)))
              | Some (Single img) \<Rightarrow>
                  (case get_col line ''index'' of
                     Inl e \<Rightarrow> (Inl e, w1)
                   | Inr idx \<Rightarrow>
                       (let tgt_path = osp_join img_root (str_cell idx @ S ''.jpg'') in
                        if \<not> read_ok E w1 tgt_path then
                          (case decode_base64_to_image_file E img tgt_path w1 of
                             (Inl e, w2) \<Rightarrow> (Inl e, w2)
                           | (Inr _, w2) \<Rightarrow> (Inr (Path tgt_path), w2))
                        else (Inr (Path tgt_path), w1)))))"

text \<open>Lines 149-154: the option-letter map, in the order of the candidates.\<close>

definition option_candidate :: "string list" where
  "option_candidate = [''A'', ''B'', ''C'', ''D'', ''E'']"

definition options_of :: "row \<Rightarrow> (string \<times> cell) list" where
  "options_of line =
     concat (map (\<lambda>cand.
        (case map_of (row_cols line) cand of
           None \<Rightarrow> []
         | Some v \<Rightarrow> if \<not> pd_isna v then [(cand, v)] else [])) option_candidate)"

text \<open>Lines 155-157.\<close>

definition option_line :: "string \<times> cell \<Rightarrow> pystr" where
  "option_line kv = S (fst kv) @ S ''. '' @ str_cell (snd kv) @ newline"

definition options_prompt_of :: "(string \<times> cell) list \<Rightarrow> pystr" where
  "options_prompt_of options =
     foldl (\<lambda>options_prompt kv. options_prompt @ option_line kv)
       (S ''There are several options:'' @ newline) options"

text \<open>Lines 143-147: the question, with the hint before it when the row has one.\<close>

definition hint_of :: "row \<Rightarrow> cell option" where
  "hint_of line =
     (case map_of (row_cols line) ''hint'' of
        None \<Rightarrow> None
      | Some h \<Rightarrow> if \<not> pd_isna h then Some h else None)"

definition hinted_question :: "row \<Rightarrow> error + cell" where
  "hinted_question line =
     bind (get_col line ''question'') (\<lambda>question.
       (case hint_of line of
          None \<Rightarrow> Inr question
        | Some hint \<Rightarrow> bind (py_add hint (Str (S '' ''))) (\<lambda>h. py_add h question)))"

text \<open>Line 158: the prompt before the instruction is appended.\<close>

definition assembled_prompt :: "row \<Rightarrow> error + cell" where
  "assembled_prompt line =
     bind (hinted_question line) (\<lambda>question.
     bind (py_add question (Str (S '' ''))) (\<lambda>q.
       py_add q (Str (options_prompt_of (options_of line)))))"

text \<open>Lines 160-164: the instruction, in Chinese when the prompt has Chinese in it.\<close>

definition add_instruction :: "cell \<Rightarrow> error + cell" where
  "add_instruction prompt =
     (case prompt of
        Str p \<Rightarrow>
          if \<not> cn_string p then Inr (Str (p @ newline @ english_suffix))
          else Inr (Str (p @ newline @ chinese_suffix))
      | _ \<Rightarrow> Inl TypeError)"

text \<open>Lines 143-164: the text for a multi-choice dataset.\<close>

definition multi_choice_text :: "row \<Rightarrow> error + cell" where
  "multi_choice_text line = bind (assembled_prompt line) add_instruction"

text \<open>Lines 142-166.\<close>

definition build_text :: "env \<Rightarrow> row \<Rightarrow> string option \<Rightarrow> error + cell" where
  "build_text E line dataset =
     (if (case dataset of None \<Rightarrow> False | Some d \<Rightarrow> DATASET_TYPE E d = ''multi-choice'')
      then multi_choice_text line
      else get_col line ''question'')"

definition build_prompt ::
  "env \<Rightarrow> row \<Rightarrow> string option \<Rightarrow> world \<Rightarrow> (error + prompt) \<times> world" where
  "build_prompt E line dataset w =
     (case build_images E line dataset w of
        (Inl e, w') \<Rightarrow> (Inl e, w')
      | (Inr tgt_path, w') \<Rightarrow>
          (case build_text E line dataset of
             Inl e \<Rightarrow> (Inl e, w')
           | Inr p \<Rightarrow> (Inr \<lparr>out_image = tgt_path, out_text = p\<rparr>, w')))"

section \<open>Inference (\<^verbatim>\<open>LLaVA_XTuner.generate\<close>)\<close>

text \<open>
  \<^verbatim>\<open>text.split(sp)\<close> for a separator: the text is scanned from the left, and every
  match of the separator closes a segment and is skipped whole. An empty separator
  is a \<^verbatim>\<open>ValueError\<close>.
\<close>

function split_from :: "pystr \<Rightarrow> pystr \<Rightarrow> pystr \<Rightarrow> pystr list" where
  "split_from sp acc s =
     (if s = [] then [acc]
      else if sp \<noteq> [] \<and> take (length sp) s = sp
        then acc # split_from sp [] (drop (length sp) s)
      else split_from sp (acc @ [hd s]) (tl s))"
  by pat_completeness auto
termination
  by (relation "measure (\<lambda>(sp, acc, s). length s)") auto

declare split_from.simps [simp del]

definition py_split :: "pystr \<Rightarrow> pystr \<Rightarrow> error + pystr list" where
  "py_split sp s = (if sp = [] then Inl ValueError else Inr (split_from sp [] s))"

text \<open>
  \<^verbatim>\<open>text.count(sp)\<close>: the number of occurrences of the separator met by the same
  scan (occurrences that do not overlap).
\<close>

function py_count :: "pystr \<Rightarrow> pystr \<Rightarrow> nat" where
  "py_count sp s =
     (if s = [] then 0
      else if sp \<noteq> [] \<and> take (length sp) s = sp
        then Suc (py_count sp (drop (length sp) s))
      else py_count sp (tl s))"
  by pat_completeness auto
termination
  by (relation "measure (\<lambda>(sp, s). length s)") auto

declare py_count.simps [simp del]

text \<open>The separator occurs in the text at position \<open>i\<close>.\<close>

definition occurs_at :: "pystr \<Rightarrow> pystr \<Rightarrow> nat \<Rightarrow> bool" where
  "occurs_at sp s i = (i + length sp \<le> length s \<and> take (length sp) (drop i s) = sp)"

text \<open>\<^verbatim>\<open>str.strip()\<close>: white space is removed at both ends.\<close>

definition is_space :: "nat \<Rightarrow> bool" where
  "is_space c =
     (c \<in> set [9, 10, 11, 12, 13, 28, 29, 30, 31, 32, 133, 160, 5760, 8232, 8233,
                8239, 8287, 12288]
      \<or> (8192 \<le> c \<and> c \<le> 8202))"

definition py_strip :: "pystr \<Rightarrow> pystr" where
  "py_strip s = rev (dropWhile is_space (rev (dropWhile is_space s)))"

text \<open>
  What \<^verbatim>\<open>generate\<close> takes from xtuner, PIL and torch: the two constants of
  \<^verbatim>\<open>xtuner.utils\<close>, the image pipeline of lines 174-183 (open, pad to a square,
  preprocess, encode, project) and the generation of lines 203-212, each of which
  returns or raises.
\<close>

record gen_env =
  DEFAULT_IMAGE_TOKEN :: pystr
  IMAGE_TOKEN_INDEX :: int
  encode_image :: "adapter \<Rightarrow> pystr \<Rightarrow> error + model"
  llm_generate :: "adapter \<Rightarrow> int list \<Rightarrow> model \<Rightarrow> error + int list"

text \<open>Lines 185-188: the composed text.\<close>

definition compose_inputs :: "gen_env \<Rightarrow> adapter \<Rightarrow> pystr \<Rightarrow> error + pystr" where
  "compose_inputs G self prompt =
     (let inputs = DEFAULT_IMAGE_TOKEN G @ newline @ prompt in
      case prompt_template self of
        None \<Rightarrow> Inr inputs
      | Some t \<Rightarrow> t inputs)"

text \<open>Lines 190-196: the first chunk is tokenized with special tokens, the others without.\<close>

definition encode_chunks :: "adapter \<Rightarrow> pystr list \<Rightarrow> int list list" where
  "encode_chunks self chunks =
     map (\<lambda>(idx, chunk). tok_encode (tokenizer self) (idx = 0) chunk) (enumerate 0 chunks)"

text \<open>Lines 198-202: the image token id goes after every chunk but the last.\<close>

definition splice_ids :: "gen_env \<Rightarrow> int list list \<Rightarrow> int list" where
  "splice_ids G chunk_encode =
     concat (map (\<lambda>(idx, cur).
        cur @ (if idx \<noteq> length chunk_encode - 1 then [IMAGE_TOKEN_INDEX G] else []))
       (enumerate 0 chunk_encode))"

definition generate :: "gen_env \<Rightarrow> adapter \<Rightarrow> pystr \<Rightarrow> pystr \<Rightarrow> error + pystr" where
  "generate G self image_path prompt =
     bind (encode_image G self image_path) (\<lambda>pixel_values.
     bind (compose_inputs G self prompt) (\<lambda>inputs.
     bind (py_split (DEFAULT_IMAGE_TOKEN G) inputs) (\<lambda>chunks.
     let chunk_encode = encode_chunks self chunks in
     bind (py_assert (length chunk_encode = 2)) (\<lambda>_.
     bind (llm_generate G self (splice_ids G chunk_encode) pixel_values) (\<lambda>generate_output.
       Inr (py_strip (tok_decode (tokenizer self) generate_output)))))))"

section \<open>Sample data\<close>

text \<open>A small environment, an empty image cache and sample rows, on which the theorems are run.\<close>

definition example_env :: env where
  "example_env =
     \<lparr> img_root_map = (\<lambda>d. if d = Some ''MMBench_DEV_EN'' then Some (S ''MMBench'')
                           else if d = Some ''MME'' then Some (S ''MME'') else None),
       DATASET_TYPE = (\<lambda>d. if d = ''MMBench_DEV_EN'' then ''multi-choice'' else ''Y/N''),
       decode_base64 = (\<lambda>s. if s = [] then None else Some s),
       image_ok = (\<lambda>f. 1 < length f) \<rparr>"

definition empty_world :: world where
  "empty_world = \<lparr> files = (\<lambda>_. None), dirs = {}, writes = [] \<rparr>"

definition sky_row :: row where
  "sky_row =
     \<lparr> row_image = Some (Single (S ''aGVsbG8='')),
       row_image_path = None,
       row_cols = [(''index'', Num 7),
                   (''question'', Str (S ''What color is the sky?'')),
                   (''A'', Str (S ''Blue'')),
                   (''B'', Str (S ''Green''))] \<rparr>"


definition abc_row :: row where
  "abc_row =
     \<lparr> row_image = Some (Single (S ''aGVsbG8='')),
       row_image_path = None,
       row_cols = [(''C'', Str (S ''z'')),
                   (''index'', Num 3),
                   (''B'', Num 12),
                   (''question'', Str (S ''Pick one.'')),
                   (''D'', NaN),
                   (''hint'', Str (S ''Look.'')),
                   (''A'', Str (S ''x''))] \<rparr>"

definition cn_row :: row where
  "cn_row =
     \<lparr> row_image = Some (Single (S ''aGVsbG8='')),
       row_image_path = None,
       row_cols = [(''index'', Num 7),
                   (''question'', Str [22825, 31354, 26159, 20160, 20040, 39068, 33394, 65311]),
                   (''A'', Str [34013, 33394]),
                   (''B'', Str [32511, 33394])] \<rparr>"

definition example_tokenizer :: tokenizer where
  "example_tokenizer =
     \<lparr> eos_token_id = Some 2, pad_token_id = None, bos_token_id = Some 1,
       tok_encode = (\<lambda>special s. (if special then [1] else []) @ map int s),
       tok_decode = (\<lambda>ids. map nat ids) \<rparr>"

definition example_loader :: loader where
  "example_loader =
     \<lparr> imports_ok = True,
       isdir = (\<lambda>p. p = S ''ckpt''),
       path_exists = (\<lambda>p. p = S ''ckpt''),
       listdir = (\<lambda>p. [S ''llm'', S ''projector'']),
       get_cache_path = (\<lambda>p. None),
       snapshot_download = (\<lambda>p. Inl LibraryError),
       load_causal_lm = (\<lambda>p. Inr 1),
       load_tokenizer = (\<lambda>p. Inr example_tokenizer),
       load_clip_vision = (\<lambda>p. Inr 2),
       load_image_processor = (\<lambda>p. Inr 3),
       load_peft = (\<lambda>m p. Inr m),
       load_projector = (\<lambda>p. Inr 4),
       to_cuda = (\<lambda>m. Inr m),
       PROMPT_TEMPLATE = (\<lambda>n. None),
       get_chat_utils = (\<lambda>m. Inr 5) \<rparr>"

definition album_row :: row where
  "album_row =
     \<lparr> row_image = Some (Multi [S ''aGk='', S ''eW8='', S ''b2g='']),
       row_image_path = Some [S ''a.jpg'', S ''b.jpg''],
       row_cols = [(''index'', Num 3), (''question'', Str (S ''Which one?''))] \<rparr>"

definition example_adapter :: adapter where
  "example_adapter =
     \<lparr> llm = 1, tokenizer = example_tokenizer, visual_encoder = 2, image_processor = 3,
       projector = 4, visual_select_layer = - 2, prompt_template = None,
       stop_criteria = 5, gen_config = kwargs_default example_tokenizer,
       llm_source = S ''ckpt/llm'', visual_encoder_source = S ''clip'' \<rparr>"

definition example_gen_env :: gen_env where
  "example_gen_env =
     \<lparr> DEFAULT_IMAGE_TOKEN = S ''<image>'',
       IMAGE_TOKEN_INDEX = - 200,
       encode_image = (\<lambda>self path. Inr 9),
       llm_generate = (\<lambda>self ids pixel_values. Inr ids) \<rparr>"

definition full_row :: row where
  "full_row =
     \<lparr> row_image = Some (Single (S ''aGVsbG8='')),
       row_image_path = None,
       row_cols = [(''E'', Str (S ''e'')),
                   (''index'', Num 3),
                   (''D'', Num 4),
                   (''question'', Str (S ''Pick one.'')),
                   (''B'', Str (S ''b'')),
                   (''C'', NaN),
                   (''A'', Str (S ''a''))] \<rparr>"

section \<open>Basic facts\<close>

lemma str7: "str_nat 7 = [55]"
  by (simp add: str_nat.simps)

lemma str3: "str_nat 3 = [51]"
  by (simp add: str_nat.simps)

lemma str12: "str_nat 12 = [49, 50]"
  by code_simp

lemma bind_eq_Inr: "bind m f = Inr y \<longleftrightarrow> (\<exists>x. m = Inr x \<and> f x = Inr y)"
  by (cases m) (simp_all add: bind_def)

lemma sky_images:
  "fst (build_images example_env sky_row (Some ''MMBench_DEV_EN'') empty_world)
     = Inr (Path (S ''images/MMBench/7.jpg''))"
  by (simp add: build_images_def example_env_def sky_row_def empty_world_def get_col_def
      str_cell_def str_int_def str7 osp_join_def S_def sep_def makedirs_def read_ok_def
      decode_base64_to_image_file_def Let_def)

section \<open>The text of the prompt\<close>

lemma foldl_append_lines:
  "foldl (\<lambda>acc kv. acc @ option_line kv) acc0 xs = acc0 @ concat (map option_line xs)"
  by (induction xs arbitrary: acc0) simp_all

lemma options_prompt_of_eq:
  "options_prompt_of xs = S ''There are several options:'' @ newline @ concat (map option_line xs)"
  by (simp add: options_prompt_of_def foldl_append_lines)

lemma assembled_prompt_Str:
  "hinted_question line = Inr (Str q) \<Longrightarrow>
   assembled_prompt line = Inr (Str (q @ S '' '' @ options_prompt_of (options_of line)))"
  by (simp add: assembled_prompt_def bind_def)

lemma multi_choice_text_Str:
  "assembled_prompt line = Inr (Str p) \<Longrightarrow>
   multi_choice_text line =
     Inr (Str (p @ newline @ (if cn_string p then chinese_suffix else english_suffix)))"
  by (simp add: multi_choice_text_def bind_def add_instruction_def)

lemma build_prompt_ok:
  "build_images E line ds w = (Inr tgt, w') \<Longrightarrow> build_text E line ds = Inr t \<Longrightarrow>
   build_prompt E line ds w = (Inr \<lparr>out_image = tgt, out_text = t\<rparr>, w')"
  by (simp add: build_prompt_def)

lemma build_text_multi_choice:
  "DATASET_TYPE E d = ''multi-choice'' \<Longrightarrow> build_text E line (Some d) = multi_choice_text line"
  by (simp add: build_text_def)

lemma options_of_vals:
  "(k, v) \<in> set (options_of line) \<Longrightarrow> map_of (row_cols line) k = Some v \<and> v \<noteq> NaN"
  by (auto simp: options_of_def option_candidate_def pd_isna_def split: option.splits if_splits cell.splits)

lemma map_of_perm:
  assumes "distinct (map fst xs)" and "mset ys = mset xs"
  shows "map_of ys = map_of xs"
proof -
  have "mset (map fst ys) = mset (map fst xs)" using assms(2) by simp
  then have "distinct (map fst ys)" using assms(1) by (metis mset_eq_imp_distinct_iff)
  moreover have "set ys = set xs" using assms(2) by (metis mset_eq_setD)
  ultimately show ?thesis using assms(1) by (simp add: map_of_inject_set)
qed

lemma get_col_cong:
  "map_of cs' = map_of (row_cols line) \<Longrightarrow> get_col (line\<lparr>row_cols := cs'\<rparr>) k = get_col line k"
  by (simp add: get_col_def)

lemma build_images_cong:
  "map_of cs' = map_of (row_cols line) \<Longrightarrow>
   build_images E (line\<lparr>row_cols := cs'\<rparr>) ds w = build_images E line ds w"
  by (simp add: build_images_def get_col_cong Let_def split: option.splits image_cell.splits)

lemma build_text_cong:
  "map_of cs' = map_of (row_cols line) \<Longrightarrow>
   build_text E (line\<lparr>row_cols := cs'\<rparr>) ds = build_text E line ds"
  by (simp add: build_text_def multi_choice_text_def
      assembled_prompt_def hinted_question_def hint_of_def get_col_cong options_of_def)

lemma build_prompt_cols_cong:
  "map_of cs' = map_of (row_cols line) \<Longrightarrow>
   build_prompt E (line\<lparr>row_cols := cs'\<rparr>) ds w = build_prompt E line ds w"
  by (simp add: build_prompt_def build_images_cong build_text_cong split: prod.splits sum.splits)

text \<open>
  Claim C2. For a multi-choice dataset and a row whose question is
  \<^verbatim>\<open>What color is the sky?\<close>, with options A \<^verbatim>\<open>Blue\<close> and B \<^verbatim>\<open>Green\<close> and no hint and
  no column C, D or E, \<open>build_prompt\<close> returns, once the image of the row is stored,
  exactly the text \<^verbatim>\<open>What color is the sky? There are several options:\<close>, the lines
  \<^verbatim>\<open>A. Blue\<close> and \<^verbatim>\<open>B. Green\<close>, an empty line and the English instruction.
\<close>

theorem build_prompt_sky_example:
  assumes "DATASET_TYPE E d = ''multi-choice''"
    and "build_images E line (Some d) w = (Inr tgt, w')"
    and "map_of (row_cols line) ''question'' = Some (Str (S ''What color is the sky?''))"
    and "map_of (row_cols line) ''A'' = Some (Str (S ''Blue''))"
    and "map_of (row_cols line) ''B'' = Some (Str (S ''Green''))"
    and "\<forall>k \<in> {''hint'', ''C'', ''D'', ''E''}. map_of (row_cols line) k = None"
  shows "build_prompt E line (Some d) w =
     (Inr \<lparr>out_image = tgt,
           out_text = Str (S ''What color is the sky? There are several options:\<newline>A. Blue\<newline>B. Green\<newline>\<newline>Answer with the option'' @ [39] @ S ''s letter from the given choices directly.'')\<rparr>,
      w')"
proof -
  have hq: "hinted_question line = Inr (Str (S ''What color is the sky?''))"
    using assms(3,6) by (simp add: hinted_question_def hint_of_def get_col_def bind_def)
  have opts: "options_of line = [(''A'', Str (S ''Blue'')), (''B'', Str (S ''Green''))]"
    using assms(4,5,6) by (simp add: options_of_def option_candidate_def pd_isna_def)
  have "build_text E line (Some d) =
     Inr (Str (S ''What color is the sky? There are several options:\<newline>A. Blue\<newline>B. Green\<newline>\<newline>Answer with the option'' @ [39] @ S ''s letter from the given choices directly.''))"
    unfolding build_text_multi_choice [OF assms(1)]
      multi_choice_text_Str [OF assembled_prompt_Str [OF hq]] opts options_prompt_of_eq
    by (simp add: option_line_def str_cell_def newline_def english_suffix_def S_def
        cn_string_def is_cjk_def)
  then show ?thesis using assms(2) by (simp add: build_prompt_ok)
qed

theorem build_prompt_sky_example_witness:
  "fst (build_prompt example_env sky_row (Some ''MMBench_DEV_EN'') empty_world) =
     Inr \<lparr>out_image = Path (S ''images/MMBench/7.jpg''),
          out_text = Str (S ''What color is the sky? There are several options:\<newline>A. Blue\<newline>B. Green\<newline>\<newline>Answer with the option'' @ [39] @ S ''s letter from the given choices directly.'')\<rparr>"
proof -
  have img: "build_images example_env sky_row (Some ''MMBench_DEV_EN'') empty_world =
      (Inr (Path (S ''images/MMBench/7.jpg'')),
       snd (build_images example_env sky_row (Some ''MMBench_DEV_EN'') empty_world))"
    by (simp add: build_images_def example_env_def sky_row_def empty_world_def get_col_def
      str_cell_def str_int_def str7 osp_join_def S_def sep_def makedirs_def read_ok_def
      decode_base64_to_image_file_def Let_def prod_eq_iff)
  show ?thesis
    using build_prompt_sky_example [of example_env "''MMBench_DEV_EN''" sky_row empty_world, OF _ img]
    by (simp add: example_env_def sky_row_def)
qed

lemma option_lines_literal:
  "concat (map option_line
      (concat (map (\<lambda>cand.
         (case map_of cs cand of
            None \<Rightarrow> []
          | Some v \<Rightarrow> if \<not> pd_isna v then [(cand, v)] else [])) ks)))
   = concat (map (\<lambda>k. S k @ S ''. ''
                    @ (case map_of cs k of
                         Some (Str s) \<Rightarrow> s | Some (Num i) \<Rightarrow> str_int i | _ \<Rightarrow> [])
                    @ [10])
       (filter (\<lambda>k. case map_of cs k of None \<Rightarrow> False | Some v \<Rightarrow> v \<noteq> NaN) ks))"
  by (induction ks)
    (auto simp: option_line_def str_cell_def pd_isna_def newline_def split: option.splits cell.splits)

lemma options_prompt_literal:
  "options_prompt_of (options_of line) =
     S ''There are several options:'' @ [10]
     @ concat (map (\<lambda>k. S k @ S ''. ''
                    @ (case map_of (row_cols line) k of
                         Some (Str s) \<Rightarrow> s | Some (Num i) \<Rightarrow> str_int i | _ \<Rightarrow> [])
                    @ [10])
         (filter (\<lambda>k. case map_of (row_cols line) k of None \<Rightarrow> False | Some v \<Rightarrow> v \<noteq> NaN)
            [''A'', ''B'', ''C'', ''D'', ''E'']))"
  unfolding options_prompt_of_eq options_of_def option_candidate_def option_lines_literal
  by (simp add: newline_def)

lemma option_keys_literal:
  "map fst
      (concat (map (\<lambda>cand.
         (case map_of cs cand of
            None \<Rightarrow> []
          | Some v \<Rightarrow> if \<not> pd_isna v then [(cand, v)] else [])) ks))
   = filter (\<lambda>k. case map_of cs k of None \<Rightarrow> False | Some v \<Rightarrow> v \<noteq> NaN) ks"
  by (induction ks) (auto simp: pd_isna_def split: option.splits cell.splits)

lemma options_of_keys_literal:
  "map fst (options_of line) =
     filter (\<lambda>k. case map_of (row_cols line) k of None \<Rightarrow> False | Some v \<Rightarrow> v \<noteq> NaN)
       [''A'', ''B'', ''C'', ''D'', ''E'']"
  unfolding options_of_def option_candidate_def by (rule option_keys_literal)

lemma suffix_literal:
  "(if cn_string p then chinese_suffix else english_suffix) =
     (if (\<exists>c \<in> set p. 19968 \<le> c \<and> c \<le> 40959)
      then [35831, 30452, 25509, 22238, 31572, 36873, 39033, 23383, 27597, 12290]
      else S ''Answer with the option'' @ [39] @ S ''s letter from the given choices directly.'')"
proof -
  have "cn_string p = (\<exists>c \<in> set p. 19968 \<le> c \<and> c \<le> 40959)"
    by (simp add: cn_string_def list_ex_iff is_cjk_def)
  then show ?thesis
    by (simp only: chinese_suffix_def english_suffix_def)
qed

text \<open>
  Claim C3. For a multi-choice dataset, once the image of the row is stored and the
  question (with its hint) is a string, the text of \<open>build_prompt\<close> is the question,
  a space, the header \<^verbatim>\<open>There are several options:\<close> and then, for each of the letters
  A, B, C, D, E in this order whose column is present and not missing, the one line
  \<^verbatim>\<open>{letter}. {text}\<close> with the value of that column, followed by an empty line and
  the instruction. These letters are the keys of the option-letter map, each with
  the value of its column. A row with A, B, C only gives exactly the three lines
  A, B, C. Reordering the columns of the row changes nothing.
\<close>

theorem build_prompt_option_block:
  assumes "DATASET_TYPE E d = ''multi-choice''"
    and "build_images E line (Some d) w = (Inr tgt, w')"
    and "hinted_question line = Inr (Str q)"
  shows "(let present = (\<lambda>k. case map_of (row_cols line) k of
                               None \<Rightarrow> False | Some v \<Rightarrow> v \<noteq> NaN);
               shown = (\<lambda>k. case map_of (row_cols line) k of
                               Some (Str s) \<Rightarrow> s | Some (Num i) \<Rightarrow> str_int i | _ \<Rightarrow> []);
               p = q @ S '' '' @ S ''There are several options:'' @ [10]
                     @ concat (map (\<lambda>k. S k @ S ''. '' @ shown k @ [10])
                         (filter present [''A'', ''B'', ''C'', ''D'', ''E'']))
           in build_prompt E line (Some d) w =
              (Inr \<lparr>out_image = tgt,
                    out_text = Str (p @ [10] @
                      (if (\<exists>c \<in> set p. 19968 \<le> c \<and> c \<le> 40959)
                       then [35831, 30452, 25509, 22238, 31572, 36873, 39033, 23383, 27597, 12290]
                       else S ''Answer with the option'' @ [39]
                              @ S ''s letter from the given choices directly.''))\<rparr>, w'))
       \<and> map fst (options_of line) =
            filter (\<lambda>k. case map_of (row_cols line) k of None \<Rightarrow> False | Some v \<Rightarrow> v \<noteq> NaN)
              [''A'', ''B'', ''C'', ''D'', ''E'']
       \<and> (\<forall>(k, v) \<in> set (options_of line). map_of (row_cols line) k = Some v \<and> v \<noteq> NaN)
       \<and> (\<forall>a b c. map_of (row_cols line) ''A'' = Some (Str a)
              \<and> map_of (row_cols line) ''B'' = Some (Str b)
              \<and> map_of (row_cols line) ''C'' = Some (Str c)
              \<and> map_of (row_cols line) ''D'' \<in> {None, Some NaN}
              \<and> map_of (row_cols line) ''E'' \<in> {None, Some NaN}
            \<longrightarrow> (let p = q @ S '' '' @ S ''There are several options:'' @ [10]
                          @ S ''A. '' @ a @ [10] @ S ''B. '' @ b @ [10] @ S ''C. '' @ c @ [10]
                 in build_prompt E line (Some d) w =
                    (Inr \<lparr>out_image = tgt,
                          out_text = Str (p @ [10] @
                            (if (\<exists>c \<in> set p. 19968 \<le> c \<and> c \<le> 40959)
                             then [35831, 30452, 25509, 22238, 31572, 36873, 39033, 23383, 27597, 12290]
                             else S ''Answer with the option'' @ [39]
                                    @ S ''s letter from the given choices directly.''))\<rparr>, w')))
       \<and> (\<forall>cs'. distinct (map fst (row_cols line)) \<and> mset cs' = mset (row_cols line)
            \<longrightarrow> build_prompt E (line\<lparr>row_cols := cs'\<rparr>) (Some d) w
                  = build_prompt E line (Some d) w)"
proof -
  let ?present = "\<lambda>k. case map_of (row_cols line) k of None \<Rightarrow> False | Some v \<Rightarrow> v \<noteq> NaN"
  let ?shown = "\<lambda>k. case map_of (row_cols line) k of
                               Some (Str s) \<Rightarrow> s | Some (Num i) \<Rightarrow> str_int i | _ \<Rightarrow> []"
  let ?block = "concat (map (\<lambda>k. S k @ S ''. '' @ ?shown k @ [10])
                         (filter ?present [''A'', ''B'', ''C'', ''D'', ''E'']))"
  let ?p = "q @ S '' '' @ S ''There are several options:'' @ [10] @ ?block"
  let ?suffix = "\<lambda>p. if (\<exists>c \<in> set p. 19968 \<le> c \<and> c \<le> (40959::nat))
                       then [35831, 30452, 25509, 22238, 31572, 36873, 39033, 23383, 27597, 12290]
                       else S ''Answer with the option'' @ [39]
                              @ S ''s letter from the given choices directly.''"
  have "build_text E line (Some d) = Inr (Str (?p @ [10] @ ?suffix ?p))"
    unfolding build_text_multi_choice [OF assms(1)]
      multi_choice_text_Str [OF assembled_prompt_Str [OF assms(3)]]
      options_prompt_literal suffix_literal
    by (simp add: newline_def)
  then have main: "build_prompt E line (Some d) w =
      (Inr \<lparr>out_image = tgt, out_text = Str (?p @ [10] @ ?suffix ?p)\<rparr>, w')"
    using assms(2) by (simp only: build_prompt_ok)
  have abc: "?block = S ''A. '' @ a @ [10] @ S ''B. '' @ b @ [10] @ S ''C. '' @ c @ [10]"
    if "map_of (row_cols line) ''A'' = Some (Str a)"
      "map_of (row_cols line) ''B'' = Some (Str b)"
      "map_of (row_cols line) ''C'' = Some (Str c)"
      "map_of (row_cols line) ''D'' \<in> {None, Some NaN}"
      "map_of (row_cols line) ''E'' \<in> {None, Some NaN}" for a b c
  proof -
    have f: "filter ?present [''A'', ''B'', ''C'', ''D'', ''E''] = [''A'', ''B'', ''C'']"
      using that by auto
    show ?thesis unfolding f using that(1,2,3) by (simp add: S_def)
  qed
  show ?thesis
  proof (intro conjI)
    show "let present = ?present; shown = ?shown;
               p = q @ S '' '' @ S ''There are several options:'' @ [10]
                     @ concat (map (\<lambda>k. S k @ S ''. '' @ shown k @ [10])
                         (filter present [''A'', ''B'', ''C'', ''D'', ''E'']))
           in build_prompt E line (Some d) w =
              (Inr \<lparr>out_image = tgt, out_text = Str (p @ [10] @ ?suffix p)\<rparr>, w')"
      unfolding Let_def by (rule main)
  next
    show "map fst (options_of line) = filter ?present [''A'', ''B'', ''C'', ''D'', ''E'']"
      by (rule options_of_keys_literal)
  next
    show "\<forall>(k, v) \<in> set (options_of line). map_of (row_cols line) k = Some v \<and> v \<noteq> NaN"
      using options_of_vals by blast
  next
    show "\<forall>a b c. map_of (row_cols line) ''A'' = Some (Str a)
              \<and> map_of (row_cols line) ''B'' = Some (Str b)
              \<and> map_of (row_cols line) ''C'' = Some (Str c)
              \<and> map_of (row_cols line) ''D'' \<in> {None, Some NaN}
              \<and> map_of (row_cols line) ''E'' \<in> {None, Some NaN}
            \<longrightarrow> (let p = q @ S '' '' @ S ''There are several options:'' @ [10]
                          @ S ''A. '' @ a @ [10] @ S ''B. '' @ b @ [10] @ S ''C. '' @ c @ [10]
                 in build_prompt E line (Some d) w =
                    (Inr \<lparr>out_image = tgt, out_text = Str (p @ [10] @ ?suffix p)\<rparr>, w'))"
    proof (intro allI impI)
      fix a b c
      assume h: "map_of (row_cols line) ''A'' = Some (Str a)
              \<and> map_of (row_cols line) ''B'' = Some (Str b)
              \<and> map_of (row_cols line) ''C'' = Some (Str c)
              \<and> map_of (row_cols line) ''D'' \<in> {None, Some NaN}
              \<and> map_of (row_cols line) ''E'' \<in> {None, Some NaN}"
      have "?block = S ''A. '' @ a @ [10] @ S ''B. '' @ b @ [10] @ S ''C. '' @ c @ [10]"
        using h by (intro abc) simp_all
      then show "let p = q @ S '' '' @ S ''There are several options:'' @ [10]
                          @ S ''A. '' @ a @ [10] @ S ''B. '' @ b @ [10] @ S ''C. '' @ c @ [10]
                 in build_prompt E line (Some d) w =
                    (Inr \<lparr>out_image = tgt, out_text = Str (p @ [10] @ ?suffix p)\<rparr>, w')"
        unfolding Let_def using main by (simp only:)
    qed
  next
    show "\<forall>cs'. distinct (map fst (row_cols line)) \<and> mset cs' = mset (row_cols line)
            \<longrightarrow> build_prompt E (line\<lparr>row_cols := cs'\<rparr>) (Some d) w
                  = build_prompt E line (Some d) w"
      using map_of_perm build_prompt_cols_cong by blast
  qed
qed

theorem build_prompt_option_block_witness:
  "fst (build_prompt example_env abc_row (Some ''MMBench_DEV_EN'') empty_world) =
       Inr \<lparr>out_image = Path (S ''images/MMBench/3.jpg''),
            out_text = Str (S ''Look. Pick one. There are several options:\<newline>A. x\<newline>B. 12\<newline>C. z\<newline>\<newline>Answer with the option'' @ [39] @ S ''s letter from the given choices directly.'')\<rparr>
   \<and> fst (build_prompt example_env full_row (Some ''MMBench_DEV_EN'') empty_world) =
       Inr \<lparr>out_image = Path (S ''images/MMBench/3.jpg''),
            out_text = Str (S ''Pick one. There are several options:\<newline>A. a\<newline>B. b\<newline>D. 4\<newline>E. e\<newline>\<newline>Answer with the option'' @ [39] @ S ''s letter from the given choices directly.'')\<rparr>
   \<and> map fst (options_of full_row) = [''A'', ''B'', ''D'', ''E'']"
proof -
  have mc: "DATASET_TYPE example_env ''MMBench_DEV_EN'' = ''multi-choice''"
    by (simp add: example_env_def)
  have img1: "build_images example_env abc_row (Some ''MMBench_DEV_EN'') empty_world =
      (Inr (Path (S ''images/MMBench/3.jpg'')),
       snd (build_images example_env abc_row (Some ''MMBench_DEV_EN'') empty_world))"
    by (simp add: build_images_def example_env_def abc_row_def empty_world_def get_col_def
      str_cell_def str_int_def str3 osp_join_def S_def sep_def makedirs_def read_ok_def
      decode_base64_to_image_file_def Let_def prod_eq_iff)
  have img2: "build_images example_env full_row (Some ''MMBench_DEV_EN'') empty_world =
      (Inr (Path (S ''images/MMBench/3.jpg'')),
       snd (build_images example_env full_row (Some ''MMBench_DEV_EN'') empty_world))"
    by (simp add: build_images_def example_env_def full_row_def empty_world_def get_col_def
      str_cell_def str_int_def str3 osp_join_def S_def sep_def makedirs_def read_ok_def
      decode_base64_to_image_file_def Let_def prod_eq_iff)
  have hq1: "hinted_question abc_row = Inr (Str (S ''Look. Pick one.''))"
    by (simp add: hinted_question_def hint_of_def get_col_def bind_def abc_row_def pd_isna_def S_def)
  have hq2: "hinted_question full_row = Inr (Str (S ''Pick one.''))"
    by (simp add: hinted_question_def hint_of_def get_col_def bind_def full_row_def pd_isna_def S_def)
  have n12: "str_int 12 = [49, 50]" by (simp add: str_int_def str12)
  have n4: "str_int 4 = [52]" by (simp add: str_int_def str_nat.simps)
  have t1: "fst (build_prompt example_env abc_row (Some ''MMBench_DEV_EN'') empty_world) =
       Inr \<lparr>out_image = Path (S ''images/MMBench/3.jpg''),
            out_text = Str (S ''Look. Pick one. There are several options:\<newline>A. x\<newline>B. 12\<newline>C. z\<newline>\<newline>Answer with the option'' @ [39] @ S ''s letter from the given choices directly.'')\<rparr>"
    using build_prompt_option_block [OF mc img1 hq1, THEN conjunct1]
    by (simp add: Let_def abc_row_def n12 S_def)
  have t2: "fst (build_prompt example_env full_row (Some ''MMBench_DEV_EN'') empty_world) =
       Inr \<lparr>out_image = Path (S ''images/MMBench/3.jpg''),
            out_text = Str (S ''Pick one. There are several options:\<newline>A. a\<newline>B. b\<newline>D. 4\<newline>E. e\<newline>\<newline>Answer with the option'' @ [39] @ S ''s letter from the given choices directly.'')\<rparr>"
    using build_prompt_option_block [OF mc img2 hq2, THEN conjunct1]
    by (simp add: Let_def full_row_def n4 S_def)
  have t3: "map fst (options_of full_row) = [''A'', ''B'', ''D'', ''E'']"
    using build_prompt_option_block [OF mc img2 hq2, THEN conjunct2, THEN conjunct1]
    by (simp add: full_row_def)
  show ?thesis using t1 t2 t3 by (intro conjI)
qed

text \<open>
  Claim C6. For a multi-choice dataset, \<open>build_prompt\<close> appends to the assembled prompt
  a newline and exactly one instruction: the Chinese instruction of line 164 (given
  by its code points) when the assembled prompt contains a CJK ideograph
  (U+4E00 .. U+9FFF), and the English instruction of lines 161-162 otherwise; the
  two instructions differ.
\<close>

theorem build_prompt_instruction_language:
  assumes "DATASET_TYPE E d = ''multi-choice''"
    and "build_images E line (Some d) w = (Inr tgt, w')"
    and "assembled_prompt line = Inr (Str p)"
  shows "build_prompt E line (Some d) w =
           (Inr \<lparr>out_image = tgt,
                 out_text = Str (p @ [10] @
                   (if (\<exists>c \<in> set p. 19968 \<le> c \<and> c \<le> 40959)
                    then [35831, 30452, 25509, 22238, 31572, 36873, 39033, 23383, 27597, 12290]
                    else S ''Answer with the option'' @ [39]
                           @ S ''s letter from the given choices directly.''))\<rparr>, w')
       \<and> [35831, 30452, 25509, 22238, 31572, 36873, 39033, 23383, 27597, 12290]
           \<noteq> S ''Answer with the option'' @ [39]
               @ S ''s letter from the given choices directly.''"
proof -
  have "build_text E line (Some d) =
      Inr (Str (p @ [10] @
                   (if (\<exists>c \<in> set p. 19968 \<le> c \<and> c \<le> 40959)
                    then [35831, 30452, 25509, 22238, 31572, 36873, 39033, 23383, 27597, 12290]
                    else S ''Answer with the option'' @ [39]
                           @ S ''s letter from the given choices directly.'')))"
    unfolding build_text_multi_choice [OF assms(1)] multi_choice_text_Str [OF assms(3)]
      suffix_literal
    by (simp add: newline_def)
  then have "build_prompt E line (Some d) w =
           (Inr \<lparr>out_image = tgt,
                 out_text = Str (p @ [10] @
                   (if (\<exists>c \<in> set p. 19968 \<le> c \<and> c \<le> 40959)
                    then [35831, 30452, 25509, 22238, 31572, 36873, 39033, 23383, 27597, 12290]
                    else S ''Answer with the option'' @ [39]
                           @ S ''s letter from the given choices directly.''))\<rparr>, w')"
    using assms(2) by (simp only: build_prompt_ok)
  moreover have "[35831, 30452, 25509, 22238, 31572, 36873, 39033, 23383, 27597, 12290]
           \<noteq> S ''Answer with the option'' @ [39]
               @ S ''s letter from the given choices directly.''"
    by (simp add: S_def)
  ultimately show ?thesis by (rule conjI)
qed

theorem build_prompt_instruction_language_witness:
  "fst (build_prompt example_env cn_row (Some ''MMBench_DEV_EN'') empty_world) =
     Inr \<lparr>out_image = Path (S ''images/MMBench/7.jpg''),
          out_text = Str ([22825, 31354, 26159, 20160, 20040, 39068, 33394, 65311]
             @ S '' There are several options:\<newline>A. '' @ [34013, 33394]
             @ S ''\<newline>B. '' @ [32511, 33394] @ S ''\<newline>\<newline>''
             @ [35831, 30452, 25509, 22238, 31572, 36873, 39033, 23383, 27597, 12290])\<rparr>
   \<and> fst (build_prompt example_env sky_row (Some ''MMBench_DEV_EN'') empty_world) =
     Inr \<lparr>out_image = Path (S ''images/MMBench/7.jpg''),
          out_text = Str (S ''What color is the sky? There are several options:\<newline>A. Blue\<newline>B. Green\<newline>\<newline>Answer with the option'' @ [39] @ S ''s letter from the given choices directly.'')\<rparr>"
proof -
  have mc: "DATASET_TYPE example_env ''MMBench_DEV_EN'' = ''multi-choice''"
    by (simp add: example_env_def)
  have img1: "build_images example_env cn_row (Some ''MMBench_DEV_EN'') empty_world =
      (Inr (Path (S ''images/MMBench/7.jpg'')),
       snd (build_images example_env cn_row (Some ''MMBench_DEV_EN'') empty_world))"
    by (simp add: build_images_def example_env_def cn_row_def empty_world_def get_col_def
      str_cell_def str_int_def str7 osp_join_def S_def sep_def makedirs_def read_ok_def
      decode_base64_to_image_file_def Let_def prod_eq_iff)
  have img2: "build_images example_env sky_row (Some ''MMBench_DEV_EN'') empty_world =
      (Inr (Path (S ''images/MMBench/7.jpg'')),
       snd (build_images example_env sky_row (Some ''MMBench_DEV_EN'') empty_world))"
    using sky_images by (simp add: prod_eq_iff)
  have ap1: "assembled_prompt cn_row = Inr (Str ([22825, 31354, 26159, 20160, 20040, 39068, 33394, 65311]
             @ S '' There are several options:\<newline>A. '' @ [34013, 33394]
             @ S ''\<newline>B. '' @ [32511, 33394] @ S ''\<newline>''))"
    by (simp add: assembled_prompt_def hinted_question_def hint_of_def get_col_def bind_def
        cn_row_def options_of_def option_candidate_def pd_isna_def options_prompt_of_def
        option_line_def str_cell_def newline_def S_def)
  have ap2: "assembled_prompt sky_row =
      Inr (Str (S ''What color is the sky? There are several options:\<newline>A. Blue\<newline>B. Green\<newline>''))"
    by (simp add: assembled_prompt_def hinted_question_def hint_of_def get_col_def bind_def
        sky_row_def options_of_def option_candidate_def pd_isna_def options_prompt_of_def
        option_line_def str_cell_def newline_def S_def)
  have t1: "fst (build_prompt example_env cn_row (Some ''MMBench_DEV_EN'') empty_world) =
     Inr \<lparr>out_image = Path (S ''images/MMBench/7.jpg''),
          out_text = Str ([22825, 31354, 26159, 20160, 20040, 39068, 33394, 65311]
             @ S '' There are several options:\<newline>A. '' @ [34013, 33394]
             @ S ''\<newline>B. '' @ [32511, 33394] @ S ''\<newline>\<newline>''
             @ [35831, 30452, 25509, 22238, 31572, 36873, 39033, 23383, 27597, 12290])\<rparr>"
    using build_prompt_instruction_language [OF mc img1 ap1, THEN conjunct1]
    by (simp add: S_def)
  have t2: "fst (build_prompt example_env sky_row (Some ''MMBench_DEV_EN'') empty_world) =
     Inr \<lparr>out_image = Path (S ''images/MMBench/7.jpg''),
          out_text = Str (S ''What color is the sky? There are several options:\<newline>A. Blue\<newline>B. Green\<newline>\<newline>Answer with the option'' @ [39] @ S ''s letter from the given choices directly.'')\<rparr>"
    using build_prompt_instruction_language [OF mc img2 ap2, THEN conjunct1]
    by (simp add: S_def)
  show ?thesis using t1 t2 by (intro conjI)
qed

text \<open>
  Claim C8. When no dataset is given, or the dataset is not of type multi-choice,
  the text that \<open>build_prompt\<close> returns is the \<^verbatim>\<open>question\<close> column of the row as it is.
\<close>

theorem build_prompt_raw_question:
  assumes "dataset = None \<or> (\<exists>d. dataset = Some d \<and> DATASET_TYPE E d \<noteq> ''multi-choice'')"
    and "build_images E line dataset w = (Inr tgt, w')"
    and "map_of (row_cols line) ''question'' = Some q"
  shows "build_prompt E line dataset w = (Inr \<lparr>out_image = tgt, out_text = q\<rparr>, w')"
proof -
  have "build_text E line dataset = Inr q"
    using assms(1,3) by (auto simp: build_text_def get_col_def)
  then show ?thesis using assms(2) by (simp only: build_prompt_ok)
qed

theorem build_prompt_raw_question_witness:
  "fst (build_prompt example_env abc_row (Some ''MME'') empty_world) =
     Inr \<lparr>out_image = Path (S ''images/MME/3.jpg''), out_text = Str (S ''Pick one.'')\<rparr>"
proof -
  have img: "build_images example_env abc_row (Some ''MME'') empty_world =
      (Inr (Path (S ''images/MME/3.jpg'')),
       snd (build_images example_env abc_row (Some ''MME'') empty_world))"
    by (simp add: build_images_def example_env_def abc_row_def empty_world_def get_col_def
      str_cell_def str_int_def str3 osp_join_def S_def sep_def makedirs_def read_ok_def
      decode_base64_to_image_file_def Let_def prod_eq_iff)
  have ty: "Some ''MME'' = None \<or> (\<exists>d. Some ''MME'' = Some d \<and> DATASET_TYPE example_env d \<noteq> ''multi-choice'')"
    by (simp add: example_env_def)
  have q: "map_of (row_cols abc_row) ''question'' = Some (Str (S ''Pick one.''))"
    by (simp add: abc_row_def)
  show ?thesis
    using build_prompt_raw_question [OF ty img q] by simp
qed

section \<open>The constructor\<close>

lemma resolve_dir: "isdir L d \<Longrightarrow> path_exists L d \<Longrightarrow> resolve_llava_path L d = Inr d"
  by (simp add: resolve_llava_path_def bind_def py_assert_def)

lemma init_llm_stage:
  "imports_ok L \<Longrightarrow> isdir L d \<Longrightarrow> path_exists L d \<Longrightarrow>
   select_path L d ''llm'' lp = Inl e \<Longrightarrow> init L d lp vp sl tn kw = Inl e"
  by (simp add: init_def resolve_dir bind_def)

lemma init_ve_stage:
  "imports_ok L \<Longrightarrow> isdir L d \<Longrightarrow> path_exists L d \<Longrightarrow> llm_stage_ok L d lp \<Longrightarrow>
   select_path L d ''visual_encoder'' vp = Inl e \<Longrightarrow> init L d lp vp sl tn kw = Inl e"
  by (auto simp add: init_def resolve_dir bind_def llm_stage_ok_def split: sum.splits)

lemma init_ve_fails:
  "select_path L d ''visual_encoder'' vp = Inl e \<Longrightarrow> resolve_llava_path L d = Inr d \<Longrightarrow>
   \<exists>e'. init L d lp vp sl tn kw = Inl e'"
  by (auto simp add: init_def bind_def split: sum.splits)

lemma select_path_conflict:
  "S sub \<in> set (listdir L d) \<Longrightarrow> explicit \<noteq> None \<Longrightarrow> select_path L d sub explicit = Inl AssertionError"
  by (simp add: select_path_def py_assert_def bind_def)

lemma select_path_missing:
  "S sub \<notin> set (listdir L d) \<Longrightarrow> select_path L d sub None = Inl AssertionError"
  by (simp add: select_path_def)

text \<open>
  Claim C1. Let the bundle location be an existing directory and the optional
  dependencies be importable. If the directory lists \<^verbatim>\<open>llm\<close> and an explicit
  \<^verbatim>\<open>llm_path\<close> is given, or it does not list \<^verbatim>\<open>llm\<close> and \<^verbatim>\<open>llm_path\<close> is \<^verbatim>\<open>None\<close>, the
  constructor fails with an assertion error. The same holds for \<^verbatim>\<open>visual_encoder\<close> and
  \<^verbatim>\<open>visual_encoder_path\<close>: the constructor fails, and with an assertion error
  whenever the language model, which is loaded before that check, was loaded.
\<close>

theorem init_path_rules:
  assumes "imports_ok L" and "isdir L d" and "path_exists L d"
  shows "(S ''llm'' \<in> set (listdir L d) \<and> llm_path \<noteq> None
            \<longrightarrow> init L d llm_path vp sl tn kw = Inl AssertionError)
       \<and> (S ''llm'' \<notin> set (listdir L d)
            \<longrightarrow> init L d None vp sl tn kw = Inl AssertionError)
       \<and> (S ''visual_encoder'' \<in> set (listdir L d) \<and> vp \<noteq> None
            \<longrightarrow> (\<exists>e. init L d llm_path vp sl tn kw = Inl e)
                \<and> (llm_stage_ok L d llm_path
                      \<longrightarrow> init L d llm_path vp sl tn kw = Inl AssertionError))
       \<and> (S ''visual_encoder'' \<notin> set (listdir L d)
            \<longrightarrow> (\<exists>e. init L d llm_path None sl tn kw = Inl e)
                \<and> (llm_stage_ok L d llm_path
                      \<longrightarrow> init L d llm_path None sl tn kw = Inl AssertionError))"
  using assms
  by (auto simp: init_llm_stage select_path_conflict select_path_missing resolve_dir
      intro: init_ve_stage init_ve_fails)

theorem init_path_rules_witness:
  "init example_loader (S ''ckpt'') (Some (S ''elsewhere'')) (Some (S ''clip'')) (- 2) None []
     = Inl AssertionError
   \<and> init example_loader (S ''ckpt'') None None (- 2) None [] = Inl AssertionError"
proof -
  have a: "imports_ok example_loader" "isdir example_loader (S ''ckpt'')"
    "path_exists example_loader (S ''ckpt'')"
    by (simp_all add: example_loader_def)
  have b: "S ''llm'' \<in> set (listdir example_loader (S ''ckpt''))"
    "S ''visual_encoder'' \<notin> set (listdir example_loader (S ''ckpt''))"
    by (simp_all add: example_loader_def S_def)
  have c: "llm_stage_ok example_loader (S ''ckpt'') None"
    by (simp add: llm_stage_ok_def select_path_def example_loader_def py_assert_def bind_def S_def)
  show ?thesis
    using init_path_rules [OF a, of "Some (S ''elsewhere'')" "Some (S ''clip'')" "- 2" None "[]"]
      init_path_rules [OF a, of None None "- 2" None "[]"] b c
    by simp
qed

lemma init_gen_config:
  "init L p lp vp sl tn kw = Inr a \<Longrightarrow>
     load_tokenizer L (llm_source a) = Inr (tokenizer a) \<and>
     gen_config a = make_gen_config (tokenizer a) kw"
  unfolding init_def
  by (auto simp: bind_eq_Inr split: if_splits)

lemma map_of_dict_update:
  "map_of (dict_update d kw) = map_of d ++ map_of (rev kw)"
  unfolding dict_update_def
  by (induction kw arbitrary: d) (auto simp: update_conv' map_add_upd_left fun_eq_iff map_add_def split: option.splits)

lemma map_of_make_gen_config:
  assumes "distinct (map fst kw)"
  shows "map_of (make_gen_config t kw) k =
     (case map_of kw k of Some v \<Rightarrow> Some v | None \<Rightarrow> map_of (kwargs_default t) k)"
proof -
  have "map_of (rev kw) = map_of kw"
    using assms by (intro map_of_perm) simp_all
  then show ?thesis
    by (simp add: make_gen_config_def map_of_dict_update map_add_def split: option.splits)
qed

text \<open>
  Claim C5. Of an adapter that was constructed: without overrides its generation
  configuration has \<^verbatim>\<open>max_new_tokens\<close> 100 and \<^verbatim>\<open>do_sample\<close> false; with overrides
  (a dict, so with distinct keys) every key reads the supplied value when one was
  supplied and the default value otherwise.
\<close>

theorem init_gen_config_overlay:
  assumes "init L p lp vp sl tn kwargs = Inr a"
  shows "(kwargs = [] \<longrightarrow>
            option_of (gen_config a) ''max_new_tokens'' = Some (PInt 100)
          \<and> option_of (gen_config a) ''do_sample'' = Some (PBool False))
       \<and> (distinct (map fst kwargs) \<longrightarrow>
            (\<forall>k. option_of (gen_config a) k =
               (case map_of kwargs k of
                  Some v \<Rightarrow> Some v
                | None \<Rightarrow> option_of (kwargs_default (tokenizer a)) k)))"
proof -
  have g: "gen_config a = make_gen_config (tokenizer a) kwargs"
    using init_gen_config [OF assms] by simp
  show ?thesis
    unfolding g option_of_def
    by (auto simp: map_of_make_gen_config) (simp_all add: make_gen_config_def kwargs_default_def)
qed

theorem init_gen_config_overlay_witness:
  "(\<exists>a. init example_loader (S ''ckpt'') None (Some (S ''clip'')) (- 2) None [] = Inr a
       \<and> option_of (gen_config a) ''max_new_tokens'' = Some (PInt 100)
       \<and> option_of (gen_config a) ''do_sample'' = Some (PBool False))
   \<and> (\<exists>a. init example_loader (S ''ckpt'') None (Some (S ''clip'')) (- 2) None
             [(''do_sample'', PBool True), (''top_k'', PInt 5)] = Inr a
       \<and> option_of (gen_config a) ''do_sample'' = Some (PBool True)
       \<and> option_of (gen_config a) ''top_k'' = Some (PInt 5)
       \<and> option_of (gen_config a) ''max_new_tokens'' = Some (PInt 100))"
proof -
  have ok: "\<exists>a. init example_loader (S ''ckpt'') None (Some (S ''clip'')) (- 2) None kw = Inr a" for kw
    by (simp add: init_def example_loader_def resolve_llava_path_def select_path_def
        load_adapter_def select_template_def bind_def py_assert_def S_def)
  obtain a1 where a1: "init example_loader (S ''ckpt'') None (Some (S ''clip'')) (- 2) None [] = Inr a1"
    using ok by blast
  obtain a2 where a2: "init example_loader (S ''ckpt'') None (Some (S ''clip'')) (- 2) None
             [(''do_sample'', PBool True), (''top_k'', PInt 5)] = Inr a2"
    using ok by blast
  have d: "distinct (map fst [(''do_sample'', PBool True), (''top_k'', PInt 5)])" by simp
  show ?thesis
    using init_gen_config_overlay [OF a1] init_gen_config_overlay [OF a2] a1 a2 d
    by (simp add: option_of_def kwargs_default_def)
qed

text \<open>
  Claim C10. Of an adapter that was constructed: the tokenizer is the one loaded from
  the language-model path, the default \<^verbatim>\<open>eos_token_id\<close> is the tokenizer's, and the
  default \<^verbatim>\<open>pad_token_id\<close> is the tokenizer's pad token id when it has one and its
  end-of-sequence token id otherwise; without overrides these defaults are the
  generation configuration.
\<close>

theorem init_default_token_ids:
  assumes "init L p lp vp sl tn kwargs = Inr a"
  shows "load_tokenizer L (llm_source a) = Inr (tokenizer a)
       \<and> option_of (kwargs_default (tokenizer a)) ''eos_token_id''
           = Some (token_id_val (eos_token_id (tokenizer a)))
       \<and> option_of (kwargs_default (tokenizer a)) ''pad_token_id''
           = Some (case pad_token_id (tokenizer a) of
                     Some i \<Rightarrow> PInt i
                   | None \<Rightarrow> token_id_val (eos_token_id (tokenizer a)))
       \<and> (kwargs = [] \<longrightarrow> gen_config a = kwargs_default (tokenizer a))"
  using init_gen_config [OF assms]
  by (simp add: option_of_def kwargs_default_def make_gen_config_def token_id_val_def
      split: option.splits)

theorem init_default_token_ids_witness:
  "\<exists>a. init example_loader (S ''ckpt'') None (Some (S ''clip'')) (- 2) None [] = Inr a
      \<and> tokenizer a = example_tokenizer
      \<and> option_of (gen_config a) ''eos_token_id'' = Some (PInt 2)
      \<and> option_of (gen_config a) ''pad_token_id'' = Some (PInt 2)"
proof -
  have "\<exists>a. init example_loader (S ''ckpt'') None (Some (S ''clip'')) (- 2) None [] = Inr a"
    by (simp add: init_def example_loader_def resolve_llava_path_def select_path_def
        load_adapter_def select_template_def bind_def py_assert_def S_def)
  then obtain a where a: "init example_loader (S ''ckpt'') None (Some (S ''clip'')) (- 2) None [] = Inr a"
    by blast
  have t: "tokenizer a = example_tokenizer"
    using init_default_token_ids [OF a] by (simp add: example_loader_def)
  show ?thesis
    using init_default_token_ids [OF a] a t
    by (auto simp add: example_tokenizer_def token_id_val_def)
qed

section \<open>The image cache\<close>

lemma read_ok_files: "files w' p = files w p \<Longrightarrow> read_ok E w' p = read_ok E w p"
  by (simp add: read_ok_def)

lemma decode_write:
  "decode_base64_to_image_file E img path w = (Inr u, w') \<Longrightarrow>
     files w' = (files w)(path \<mapsto> the (decode_base64 E img)) \<and> writes w' = writes w @ [path]
     \<and> dirs w' = dirs w \<and> decode_base64 E img \<noteq> None"
  by (auto simp: decode_base64_to_image_file_def split: option.splits)

lemma decode_fail:
  "decode_base64_to_image_file E img path w = (Inl e, w') \<Longrightarrow> w' = w \<and> decode_base64 E img = None"
  by (auto simp: decode_base64_to_image_file_def split: option.splits)

lemma decode_total:
  "decode_base64 E img \<noteq> None \<Longrightarrow> \<exists>w'. decode_base64_to_image_file E img path w = (Inr (), w')"
  by (auto simp: decode_base64_to_image_file_def split: option.splits)

lemma save_images_trace:
  "save_images E root pairs tgt w = (r, w') \<Longrightarrow>
     \<exists>new. writes w' = writes w @ new \<and> (\<forall>p \<in> set new. \<not> read_ok E w p)
         \<and> (\<forall>p. read_ok E w p \<longrightarrow> files w' p = files w p)"
proof (induction pairs arbitrary: tgt w)
  case Nil
  then show ?case by simp
next
  case (Cons a pairs)
  obtain img im_name where a: "a = (img, im_name)" by (cases a)
  let ?path = "osp_join root im_name"
  show ?case
  proof (cases "read_ok E w ?path")
    case True
    then have "save_images E root pairs (tgt @ [?path]) w = (r, w')"
      using Cons.prems a by (simp add: Let_def)
    then show ?thesis by (rule Cons.IH)
  next
    case False
    show ?thesis
    proof (cases "decode_base64_to_image_file E img ?path w")
      case (Pair res w1)
      show ?thesis
      proof (cases res)
        case (Inl e)
        then have "w' = w" using Cons.prems a False Pair decode_fail [of E img ?path w e w1]
          by (simp add: Let_def)
        then show ?thesis by simp
      next
        case (Inr u)
        then have run: "save_images E root pairs (tgt @ [?path]) w1 = (r, w')"
          using Cons.prems a False Pair by (simp add: Let_def)
        have w1: "files w1 = (files w)(?path \<mapsto> the (decode_base64 E img))"
          "writes w1 = writes w @ [?path]"
          using decode_write [of E img ?path w u w1] Pair Inr by simp_all
        obtain new where new: "writes w' = writes w1 @ new"
          "\<forall>p \<in> set new. \<not> read_ok E w1 p"
          "\<forall>p. read_ok E w1 p \<longrightarrow> files w' p = files w1 p"
          using Cons.IH [OF run] by blast
        have same: "p \<noteq> ?path \<Longrightarrow> read_ok E w1 p = read_ok E w p" for p
          by (rule read_ok_files) (simp add: w1)
        have "writes w' = writes w @ (?path # new)" using new(1) w1(2) by simp
        moreover have "\<forall>p \<in> set (?path # new). \<not> read_ok E w p"
        proof
          fix p assume "p \<in> set (?path # new)"
          then consider "p = ?path" | "p \<noteq> ?path" "p \<in> set new" by auto
          then show "\<not> read_ok E w p"
          proof cases
            case 1
            then show ?thesis using False by simp
          next
            case 2
            then show ?thesis using new(2) same [of p] by simp
          qed
        qed
        moreover have "\<forall>p. read_ok E w p \<longrightarrow> files w' p = files w p"
        proof (intro allI impI)
          fix p assume p: "read_ok E w p"
          then have ne: "p \<noteq> ?path" using False by auto
          then have "read_ok E w1 p" using p same by simp
          then have "files w' p = files w1 p" using new(3) by simp
          then show "files w' p = files w p" using ne by (simp add: w1)
        qed
        ultimately show ?thesis by blast
      qed
    qed
  qed
qed

lemma save_images_paths:
  "save_images E root pairs tgt w = (Inr ps, w') \<Longrightarrow>
     ps = tgt @ map (\<lambda>pr. osp_join root (snd pr)) pairs"
proof (induction pairs arbitrary: tgt w)
  case Nil
  then show ?case by simp
next
  case (Cons a pairs)
  obtain img im_name where a: "a = (img, im_name)" by (cases a)
  show ?case
    using Cons.prems a
    by (auto simp: Let_def split: if_splits prod.splits sum.splits dest!: Cons.IH)
qed

lemma save_images_total:
  "\<forall>pr \<in> set pairs. decode_base64 E (fst pr) \<noteq> None \<Longrightarrow>
     \<exists>ps w'. save_images E root pairs tgt w = (Inr ps, w')"
proof (induction pairs arbitrary: tgt w)
  case Nil
  then show ?case by simp
next
  case (Cons a pairs)
  obtain img im_name where a: "a = (img, im_name)" by (cases a)
  have d: "decode_base64 E img \<noteq> None" using Cons.prems a by simp
  have rest: "\<exists>ps w'. save_images E root pairs tgt' w1 = (Inr ps, w')" for tgt' w1
    using Cons.IH Cons.prems by simp
  show ?case
    using decode_total [OF d, of "osp_join root im_name" w] rest a
    by (auto simp: Let_def)
qed

lemma save_images_again:
  "save_images E root pairs tgt w = (Inr ps, w1) \<Longrightarrow>
   \<forall>p. read_ok E w1 p \<longrightarrow> read_ok E w2 p \<Longrightarrow>
     \<exists>ps' w3. save_images E root pairs tgt' w2 = (Inr ps', w3)"
proof (induction pairs arbitrary: tgt tgt' w w2)
  case Nil
  then show ?case by simp
next
  case (Cons a pairs)
  obtain img im_name where a: "a = (img, im_name)" by (cases a)
  let ?path = "osp_join root im_name"
  have keep: "read_ok E w p \<Longrightarrow> read_ok E w1 p" for p
    using save_images_trace [OF Cons.prems(1)] read_ok_files [of w1 p w E] by auto
  show ?case
  proof (cases "read_ok E w2 ?path")
    case True
    have "\<exists>w'. save_images E root pairs (tgt @ [?path]) w' = (Inr ps, w1)"
      using Cons.prems(1) a by (auto simp: Let_def split: if_splits prod.splits sum.splits)
    then obtain w' where "save_images E root pairs (tgt @ [?path]) w' = (Inr ps, w1)" by blast
    from Cons.IH [OF this Cons.prems(2)] show ?thesis
      using True a by (simp add: Let_def)
  next
    case False
    then have "\<not> read_ok E w1 ?path" using Cons.prems(2) by blast
    then have nw: "\<not> read_ok E w ?path" using keep by blast
    then obtain wa where wa: "decode_base64_to_image_file E img ?path w = (Inr (), wa)"
        "save_images E root pairs (tgt @ [?path]) wa = (Inr ps, w1)"
      using Cons.prems(1) a by (auto simp: Let_def split: prod.splits sum.splits)
    have d: "decode_base64 E img \<noteq> None" using decode_write [OF wa(1)] by simp
    obtain wb where wb: "decode_base64_to_image_file E img ?path w2 = (Inr (), wb)"
      using decode_total [OF d] by blast
    have fb: "files wb = (files w2)(?path \<mapsto> the (decode_base64 E img))"
      using decode_write [OF wb] by simp
    have "\<forall>p. read_ok E w1 p \<longrightarrow> read_ok E wb p"
    proof (intro allI impI)
      fix p assume p: "read_ok E w1 p"
      then have "p \<noteq> ?path" using \<open>\<not> read_ok E w1 ?path\<close> by auto
      then have "read_ok E wb p = read_ok E w2 p" by (intro read_ok_files) (simp add: fb)
      then show "read_ok E wb p" using p Cons.prems(2) by simp
    qed
    from Cons.IH [OF wa(2) this] show ?thesis
      using False a wb by (simp add: Let_def)
  qed
qed


lemma read_ok_makedirs: "read_ok E (makedirs d w) p = read_ok E w p"
  by (simp add: read_ok_def makedirs_def)

lemma writes_makedirs: "writes (makedirs d w) = writes w"
  by (simp add: makedirs_def)

lemma build_images_multi:
  assumes "row_image line = Some (Multi imgs)"
  shows "build_images E line ds w = (Inr tgt, w1) \<longleftrightarrow>
     (\<exists>r names ps. img_root_map E ds = Some r \<and> row_image_path line = Some names
        \<and> save_images E (osp_join (S ''images'') r) (zip imgs names) []
             (makedirs (osp_join (S ''images'') r) w) = (Inr ps, w1)
        \<and> tgt = Paths ps)"
  using assms
  by (auto simp: build_images_def Let_def split: option.splits prod.splits sum.splits)

lemma build_images_single:
  assumes "row_image line = Some (Single img)"
  shows "build_images E line ds w = (Inr tgt, w1) \<longleftrightarrow>
     (\<exists>r idx. img_root_map E ds = Some r \<and> map_of (row_cols line) ''index'' = Some idx
        \<and> tgt = Path (osp_join (osp_join (S ''images'') r) (str_cell idx @ S ''.jpg''))
        \<and> (let w0 = makedirs (osp_join (S ''images'') r) w;
                 p = osp_join (osp_join (S ''images'') r) (str_cell idx @ S ''.jpg'')
            in if read_ok E w0 p then w1 = w0
               else decode_base64_to_image_file E img p w0 = (Inr (), w1)))"
  using assms
  by (auto simp: build_images_def get_col_def Let_def split: option.splits prod.splits sum.splits)

lemma build_images_again:
  assumes "build_images E line ds w = (Inr tgt, w1)"
  shows "\<exists>w2 new. build_images E line ds w1 = (Inr tgt, w2) \<and> writes w2 = writes w1 @ new
           \<and> (\<forall>p \<in> set new. \<not> read_ok E w1 p)"
proof -
  obtain ic where ic: "row_image line = Some ic"
    using assms by (auto simp: build_images_def Let_def split: option.splits)
  show ?thesis
  proof (cases ic)
    case (Multi imgs)
    then have m: "row_image line = Some (Multi imgs)" using ic by simp
    obtain r names ps where h: "img_root_map E ds = Some r" "row_image_path line = Some names"
      "save_images E (osp_join (S ''images'') r) (zip imgs names) []
             (makedirs (osp_join (S ''images'') r) w) = (Inr ps, w1)" "tgt = Paths ps"
      using assms build_images_multi [OF m] by blast
    let ?root = "osp_join (S ''images'') r"
    have "\<forall>p. read_ok E w1 p \<longrightarrow> read_ok E (makedirs ?root w1) p"
      by (simp add: read_ok_makedirs)
    from save_images_again [OF h(3) this]
    obtain ps' w3 where again: "save_images E ?root (zip imgs names) [] (makedirs ?root w1) = (Inr ps', w3)"
      by blast
    have "ps' = ps"
      using save_images_paths [OF again] save_images_paths [OF h(3)] by simp
    then have "build_images E line ds w1 = (Inr tgt, w3)"
      using build_images_multi [OF m, of E ds w1 tgt w3] h again by simp
    moreover obtain new where "writes w3 = writes w1 @ new" "\<forall>p \<in> set new. \<not> read_ok E w1 p"
      using save_images_trace [OF again] by (auto simp: read_ok_makedirs writes_makedirs)
    ultimately show ?thesis by blast
  next
    case (Single img)
    then have s: "row_image line = Some (Single img)" using ic by simp
    obtain r idx where h: "img_root_map E ds = Some r" "map_of (row_cols line) ''index'' = Some idx"
      "tgt = Path (osp_join (osp_join (S ''images'') r) (str_cell idx @ S ''.jpg''))"
      and step: "let w0 = makedirs (osp_join (S ''images'') r) w;
                 p = osp_join (osp_join (S ''images'') r) (str_cell idx @ S ''.jpg'')
            in if read_ok E w0 p then w1 = w0
               else decode_base64_to_image_file E img p w0 = (Inr (), w1)"
      using assms build_images_single [OF s] by blast
    let ?root = "osp_join (S ''images'') r"
    let ?p = "osp_join ?root (str_cell idx @ S ''.jpg'')"
    show ?thesis
    proof (cases "read_ok E w1 ?p")
      case True
      then have "build_images E line ds w1 = (Inr tgt, makedirs ?root w1)"
        using build_images_single [OF s, of E ds w1 tgt "makedirs ?root w1"] h
        by (simp add: read_ok_makedirs Let_def)
      then show ?thesis by (intro exI [of _ "makedirs ?root w1"] exI [of _ "[]"]) (simp add: writes_makedirs)
    next
      case False
      then have "\<not> read_ok E (makedirs ?root w) ?p"
        using step by (auto simp: Let_def read_ok_makedirs split: if_splits)
      then have "decode_base64_to_image_file E img ?p (makedirs ?root w) = (Inr (), w1)"
        using step by (simp add: Let_def)
      then have "decode_base64 E img \<noteq> None" using decode_write by blast
      from decode_total [OF this] obtain w2
        where w2: "decode_base64_to_image_file E img ?p (makedirs ?root w1) = (Inr (), w2)" by blast
      then have "build_images E line ds w1 = (Inr tgt, w2)"
        using build_images_single [OF s, of E ds w1 tgt w2] h False
        by (simp add: read_ok_makedirs Let_def)
      moreover have "writes w2 = writes w1 @ [?p]"
        using decode_write [OF w2] by (simp add: writes_makedirs)
      ultimately show ?thesis using False by (intro exI [of _ w2] exI [of _ "[?p]"]) simp
    qed
  qed
qed

lemma build_prompt_Inr:
  "build_prompt E line ds w = (Inr p, w1) \<longleftrightarrow>
     build_images E line ds w = (Inr (out_image p), w1) \<and> build_text E line ds = Inr (out_text p)"
  by (cases p) (auto simp: build_prompt_def split: prod.splits sum.splits)

text \<open>
  Claim C7. When \<open>build_prompt\<close> has returned a prompt for a row and a dataset, a
  second call with the same row and dataset, on the image cache the first call left,
  returns the same prompt (so the same image path or list of paths), and every path
  it writes was not an existing, readable file when the second call began: no such
  file is written again.
\<close>

theorem build_prompt_twice:
  assumes "build_prompt E line ds w = (Inr p, w1)"
  shows "\<exists>w2 new. build_prompt E line ds w1 = (Inr p, w2)
           \<and> writes w2 = writes w1 @ new
           \<and> (\<forall>path \<in> set new. \<not> read_ok E w1 path)"
  using assms build_images_again [of E line ds w "out_image p" w1]
  by (simp add: build_prompt_Inr)

theorem build_prompt_twice_witness:
  "fst (build_prompt example_env sky_row (Some ''MMBench_DEV_EN'') empty_world)
     = Inr \<lparr>out_image = Path (S ''images/MMBench/7.jpg''),
            out_text = Str (S ''What color is the sky? There are several options:\<newline>A. Blue\<newline>B. Green\<newline>\<newline>Answer with the option'' @ [39] @ S ''s letter from the given choices directly.'')\<rparr>
   \<and> (\<exists>w2 new.
        build_prompt example_env sky_row (Some ''MMBench_DEV_EN'')
            (snd (build_prompt example_env sky_row (Some ''MMBench_DEV_EN'') empty_world))
          = (fst (build_prompt example_env sky_row (Some ''MMBench_DEV_EN'') empty_world), w2)
        \<and> writes w2
            = writes (snd (build_prompt example_env sky_row (Some ''MMBench_DEV_EN'') empty_world)) @ new
        \<and> (\<forall>path \<in> set new. \<not> read_ok example_env
              (snd (build_prompt example_env sky_row (Some ''MMBench_DEV_EN'') empty_world)) path))"
proof -
  let ?r = "build_prompt example_env sky_row (Some ''MMBench_DEV_EN'') empty_world"
  let ?p = "\<lparr>out_image = Path (S ''images/MMBench/7.jpg''),
            out_text = Str (S ''What color is the sky? There are several options:\<newline>A. Blue\<newline>B. Green\<newline>\<newline>Answer with the option'' @ [39] @ S ''s letter from the given choices directly.'')\<rparr>"
  have "build_text example_env sky_row (Some ''MMBench_DEV_EN'') = Inr (out_text ?p)"
    by (simp add: build_text_def multi_choice_text_def assembled_prompt_def
        hinted_question_def hint_of_def get_col_def bind_def add_instruction_def
        example_env_def sky_row_def options_of_def option_candidate_def pd_isna_def
        options_prompt_of_def option_line_def str_cell_def newline_def english_suffix_def
        cn_string_def is_cjk_def S_def)
  then have first: "?r = (Inr ?p, snd ?r)"
    using sky_images by (simp add: build_prompt_def prod_eq_iff split: prod.splits sum.splits)
  then have f: "fst ?r = Inr ?p"
    by (simp add: prod_eq_iff)
  show ?thesis
    using build_prompt_twice [OF first] f by simp
qed

text \<open>
  Claim C9. For a row whose \<^verbatim>\<open>image\<close> is a list and which has an \<^verbatim>\<open>image_path\<close> list,
  every prompt that \<open>build_prompt\<close> returns holds a list of paths as long as the
  shorter of the two lists; and the call does return, whatever the two lengths,
  when the dataset has an image root, the images that are paired with a name decode
  and the text is built.
\<close>

theorem build_prompt_image_list_length:
  assumes "row_image line = Some (Multi imgs)"
    and "row_image_path line = Some names"
  shows "(\<forall>p w'. build_prompt E line ds w = (Inr p, w') \<longrightarrow>
            (\<exists>ps. out_image p = Paths ps \<and> length ps = min (length imgs) (length names)))
       \<and> (img_root_map E ds \<noteq> None
            \<and> (\<forall>img \<in> set (take (length names) imgs). decode_base64 E img \<noteq> None)
            \<and> (\<exists>t. build_text E line ds = Inr t)
          \<longrightarrow> (\<exists>p w'. build_prompt E line ds w = (Inr p, w')))"
proof (intro conjI allI impI)
  fix p w' assume "build_prompt E line ds w = (Inr p, w')"
  then have "build_images E line ds w = (Inr (out_image p), w')"
    by (simp add: build_prompt_Inr)
  then obtain r ps where ps: "save_images E (osp_join (S ''images'') r) (zip imgs names) []
             (makedirs (osp_join (S ''images'') r) w) = (Inr ps, w')" "out_image p = Paths ps"
    using build_images_multi [OF assms(1)] assms(2) by auto
  have "length ps = min (length imgs) (length names)"
    using save_images_paths [OF ps(1)] by simp
  then show "\<exists>ps. out_image p = Paths ps \<and> length ps = min (length imgs) (length names)"
    using ps(2) by blast
next
  assume h: "img_root_map E ds \<noteq> None
            \<and> (\<forall>img \<in> set (take (length names) imgs). decode_base64 E img \<noteq> None)
            \<and> (\<exists>t. build_text E line ds = Inr t)"
  then obtain r t where r: "img_root_map E ds = Some r" and t: "build_text E line ds = Inr t"
    by auto
  have "\<forall>pr \<in> set (zip imgs names). decode_base64 E (fst pr) \<noteq> None"
  proof
    fix pr assume "pr \<in> set (zip imgs names)"
    then have "fst pr \<in> set (take (length names) imgs)"
      by (force simp: in_set_zip in_set_conv_nth)
    then show "decode_base64 E (fst pr) \<noteq> None" using h by blast
  qed
  from save_images_total [OF this]
  obtain ps w' where "save_images E (osp_join (S ''images'') r) (zip imgs names) []
             (makedirs (osp_join (S ''images'') r) w) = (Inr ps, w')" by blast
  then have "build_images E line ds w = (Inr (Paths ps), w')"
    using build_images_multi [OF assms(1)] assms(2) r by simp
  then have "build_prompt E line ds w = (Inr \<lparr>out_image = Paths ps, out_text = t\<rparr>, w')"
    using t by (simp add: build_prompt_Inr)
  then show "\<exists>p w'. build_prompt E line ds w = (Inr p, w')" by blast
qed


theorem build_prompt_image_list_length_witness:
  "\<exists>p w'. build_prompt example_env album_row (Some ''MME'') empty_world = (Inr p, w')
      \<and> (\<exists>ps. out_image p = Paths ps \<and> length ps = 2)"
proof -
  have a: "row_image album_row = Some (Multi [S ''aGk='', S ''eW8='', S ''b2g=''])"
    "row_image_path album_row = Some [S ''a.jpg'', S ''b.jpg'']"
    by (simp_all add: album_row_def)
  have h: "img_root_map example_env (Some ''MME'') \<noteq> None
      \<and> (\<forall>img \<in> set (take (length [S ''a.jpg'', S ''b.jpg'']) [S ''aGk='', S ''eW8='', S ''b2g='']).
            decode_base64 example_env img \<noteq> None)
      \<and> (\<exists>t. build_text example_env album_row (Some ''MME'') = Inr t)"
    by (simp add: example_env_def build_text_def get_col_def album_row_def S_def)
  note inst = build_prompt_image_list_length [OF a, of example_env "Some ''MME''" empty_world]
  from inst h obtain p w'
    where r: "build_prompt example_env album_row (Some ''MME'') empty_world = (Inr p, w')"
    by blast
  with inst have "\<exists>ps. out_image p = Paths ps
      \<and> length ps = min (length [S ''aGk='', S ''eW8='', S ''b2g='']) (length [S ''a.jpg'', S ''b.jpg''])"
    by blast
  then have "\<exists>ps. out_image p = Paths ps \<and> length ps = 2" by (simp add: numeral_2_eq_2)
  with r show ?thesis by blast
qed

section \<open>The placeholder invariant of \<^verbatim>\<open>generate\<close>\<close>

lemma length_split_from:
  "sp \<noteq> [] \<Longrightarrow> length (split_from sp acc s) = Suc (py_count sp s)"
proof (induction sp acc s rule: split_from.induct)
  case (1 sp acc s)
  have sf: "split_from sp acc s =
     (if s = [] then [acc]
      else if sp \<noteq> [] \<and> take (length sp) s = sp
        then acc # split_from sp [] (drop (length sp) s)
      else split_from sp (acc @ [hd s]) (tl s))"
    by (rule split_from.simps)
  have pc: "py_count sp s =
     (if s = [] then 0
      else if sp \<noteq> [] \<and> take (length sp) s = sp
        then Suc (py_count sp (drop (length sp) s))
      else py_count sp (tl s))"
    by (rule py_count.simps)
  show ?case
  proof (cases "s = []")
    case True
    then show ?thesis unfolding sf pc by simp
  next
    case False
    show ?thesis
    proof (cases "take (length sp) s = sp")
      case True
      then show ?thesis
        unfolding sf pc using 1 False by simp
    next
      case nomatch: False
      then show ?thesis
        unfolding sf pc using 1 False by simp
    qed
  qed
qed

lemma occurs_at_Nil: "sp \<noteq> [] \<Longrightarrow> \<not> occurs_at sp [] i"
  by (simp add: occurs_at_def)

lemma occurs_at_0: "occurs_at sp s 0 \<longleftrightarrow> take (length sp) s = sp"
proof
  assume "occurs_at sp s 0" then show "take (length sp) s = sp" by (simp add: occurs_at_def)
next
  assume a: "take (length sp) s = sp"
  then have "length sp = min (length s) (length sp)" by (metis length_take)
  then show "occurs_at sp s 0" using a by (simp add: occurs_at_def)
qed

lemma occurs_at_Suc: "s \<noteq> [] \<Longrightarrow> occurs_at sp s (Suc i) \<longleftrightarrow> occurs_at sp (tl s) i"
  by (cases s) (simp_all add: occurs_at_def)

lemma occurs_at_drop:
  "occurs_at sp s (n + i) \<Longrightarrow> occurs_at sp (drop n s) i"
  by (auto simp: occurs_at_def add.commute)

lemma py_count_zero:
  "sp \<noteq> [] \<Longrightarrow> py_count sp s = 0 \<longleftrightarrow> (\<forall>i. \<not> occurs_at sp s i)"
proof (induction sp s rule: py_count.induct)
  case (1 sp s)
  have pc: "py_count sp s =
     (if s = [] then 0
      else if sp \<noteq> [] \<and> take (length sp) s = sp
        then Suc (py_count sp (drop (length sp) s))
      else py_count sp (tl s))"
    by (rule py_count.simps)
  show ?case
  proof (cases "s = []")
    case True
    then show ?thesis unfolding pc using 1(3) by (simp add: occurs_at_Nil)
  next
    case False
    show ?thesis
    proof (cases "take (length sp) s = sp")
      case True
      then have "occurs_at sp s 0" by (simp add: occurs_at_0)
      moreover have "py_count sp s \<noteq> 0" unfolding pc using True False 1(3) by simp
      ultimately show ?thesis by blast
    next
      case nomatch: False
      have eq: "py_count sp s = py_count sp (tl s)"
        unfolding pc using False nomatch by simp
      have ih: "py_count sp (tl s) = 0 \<longleftrightarrow> (\<forall>i. \<not> occurs_at sp (tl s) i)"
        using 1(2) [OF False _ 1(3)] nomatch by simp
      have "(\<forall>i. \<not> occurs_at sp s i) \<longleftrightarrow> (\<forall>i. \<not> occurs_at sp (tl s) i)"
      proof
        assume a: "\<forall>i. \<not> occurs_at sp s i"
        show "\<forall>i. \<not> occurs_at sp (tl s) i"
          using a occurs_at_Suc [OF False] by blast
      next
        assume a: "\<forall>i. \<not> occurs_at sp (tl s) i"
        show "\<forall>i. \<not> occurs_at sp s i"
        proof
          fix i show "\<not> occurs_at sp s i"
          proof (cases i)
            case 0
            then show ?thesis using nomatch by (simp add: occurs_at_0)
          next
            case (Suc k)
            then show ?thesis using a by (simp add: occurs_at_Suc [OF False])
          qed
        qed
      qed
      then show ?thesis using eq ih by simp
    qed
  qed
qed

lemma py_count_match:
  "s \<noteq> [] \<Longrightarrow> sp \<noteq> [] \<Longrightarrow> take (length sp) s = sp \<Longrightarrow>
   py_count sp s = Suc (py_count sp (drop (length sp) s))"
  by (subst py_count.simps) (simp only: if_False if_True simp_thms)

lemma py_count_nomatch:
  "s \<noteq> [] \<Longrightarrow> take (length sp) s \<noteq> sp \<Longrightarrow> py_count sp s = py_count sp (tl s)"
  by (subst py_count.simps) (simp only: if_False if_True simp_thms)

lemma two_match:
  assumes "sp \<noteq> []" and "take (length sp) s = sp" and "occurs_at sp s j" and "length sp \<le> j"
  shows "2 \<le> py_count sp s"
proof -
  have ne: "s \<noteq> []" using assms(1,3) occurs_at_Nil by blast
  obtain k where k: "j = length sp + k" using assms(4) le_Suc_ex by blast
  have "occurs_at sp (drop (length sp) s) k"
    using assms(3) unfolding k by (rule occurs_at_drop)
  then have nz: "py_count sp (drop (length sp) s) \<noteq> 0"
    using py_count_zero [OF assms(1)] by blast
  have step: "py_count sp s = Suc (py_count sp (drop (length sp) s))"
    by (rule py_count_match [OF ne assms(1,2)])
  show ?thesis using nz step by arith
qed

lemma two_nomatch:
  assumes "s \<noteq> []" and "take (length sp) s \<noteq> sp"
    and "occurs_at sp s i" and "occurs_at sp s j" and "i + length sp \<le> j"
  shows "\<exists>i' j'. occurs_at sp (tl s) i' \<and> occurs_at sp (tl s) j' \<and> i' + length sp \<le> j'"
proof -
  have "\<not> occurs_at sp s 0" using assms(2) by (simp only: occurs_at_0 simp_thms)
  then have "i \<noteq> 0" using assms(3) by (intro notI) (simp only:)
  then obtain i' where i': "i = Suc i'" using not0_implies_Suc by blast
  have "j \<noteq> 0" using assms(5) unfolding i' by (intro notI) (simp only: add_Suc le_zero_eq nat.simps)
  then obtain j' where j': "j = Suc j'" using not0_implies_Suc by blast
  have oi: "occurs_at sp (tl s) i'" using assms(3) unfolding i' by (simp only: occurs_at_Suc [OF assms(1)])
  have oj: "occurs_at sp (tl s) j'" using assms(4) unfolding j' by (simp only: occurs_at_Suc [OF assms(1)])
  have le: "i' + length sp \<le> j'" using assms(5) unfolding i' j' by simp
  show ?thesis using oi oj le by blast
qed

lemma py_count_two:
  "sp \<noteq> [] \<Longrightarrow> occurs_at sp s i \<Longrightarrow> occurs_at sp s j \<Longrightarrow> i + length sp \<le> j \<Longrightarrow>
     2 \<le> py_count sp s"
proof (induction sp s arbitrary: i j rule: py_count.induct)
  case (1 sp s)
  have ne: "s \<noteq> []" using 1(3,4) occurs_at_Nil by blast
  show ?case
  proof (cases "take (length sp) s = sp")
    case True
    have "length sp \<le> j" using 1(6) by simp
    then show ?thesis by (rule two_match [OF 1(3) True 1(5)])
  next
    case False
    obtain i' j' where ij: "occurs_at sp (tl s) i'" "occurs_at sp (tl s) j'" "i' + length sp \<le> j'"
      using two_nomatch [OF ne False 1(4,5,6)] by blast
    have c: "\<not> (sp \<noteq> [] \<and> take (length sp) s = sp)" using False by simp
    have "2 \<le> py_count sp (tl s)"
      by (rule 1(2) [OF ne c 1(3) ij])
    then show ?thesis by (simp only: py_count_nomatch [OF ne False])
  qed
qed

lemma split_two:
  "length xs = 2 \<Longrightarrow> \<exists>a b. xs = [a, b]"
  by (cases xs; cases "tl xs") auto

lemma generate_unfold:
  assumes "encode_image G self image_path = Inr pv"
    and "compose_inputs G self prompt = Inr inputs"
    and "DEFAULT_IMAGE_TOKEN G \<noteq> []"
  shows "generate G self image_path prompt =
     bind (py_assert (length (encode_chunks self (split_from (DEFAULT_IMAGE_TOKEN G) [] inputs)) = 2)) (\<lambda>_.
      bind (llm_generate G self
              (splice_ids G (encode_chunks self (split_from (DEFAULT_IMAGE_TOKEN G) [] inputs))) pv)
        (\<lambda>generate_output.
        Inr (py_strip (tok_decode (tokenizer self) generate_output))))"
  using assms by (simp add: generate_def bind_def py_split_def Let_def)

lemma length_encode_chunks: "length (encode_chunks self chunks) = length chunks"
  by (simp add: encode_chunks_def)

lemma splice_two:
  "splice_ids G (encode_chunks self [a, b]) =
     tok_encode (tokenizer self) True a @ [IMAGE_TOKEN_INDEX G] @ tok_encode (tokenizer self) False b"
  by (simp add: splice_ids_def encode_chunks_def)

text \<open>
  Claim C4. Let the image pipeline have run and the text be composed (the placeholder,
  a newline and the prompt, wrapped in the template if there is one), for a
  non-empty placeholder token. If the composed text has no occurrence of the
  placeholder, or two occurrences that do not overlap, \<open>generate\<close> fails with an
  assertion error; in general the split has other than two segments exactly when
  \<^verbatim>\<open>count\<close> of the placeholder is not one, and then the assertion fails. With exactly
  one occurrence the assertion passes and the ids are those of the first segment,
  the image token id, and those of the second segment.
\<close>

theorem generate_placeholder_invariant:
  assumes "encode_image G self image_path = Inr pv"
    and "compose_inputs G self prompt = Inr inputs"
    and "DEFAULT_IMAGE_TOKEN G \<noteq> []"
  shows "((\<forall>i. \<not> occurs_at (DEFAULT_IMAGE_TOKEN G) inputs i)
            \<longrightarrow> generate G self image_path prompt = Inl AssertionError)
       \<and> ((\<exists>i j. occurs_at (DEFAULT_IMAGE_TOKEN G) inputs i
                 \<and> occurs_at (DEFAULT_IMAGE_TOKEN G) inputs j
                 \<and> i + length (DEFAULT_IMAGE_TOKEN G) \<le> j)
            \<longrightarrow> generate G self image_path prompt = Inl AssertionError)
       \<and> (length (split_from (DEFAULT_IMAGE_TOKEN G) [] inputs) \<noteq> 2
            \<longleftrightarrow> py_count (DEFAULT_IMAGE_TOKEN G) inputs \<noteq> 1)
       \<and> (py_count (DEFAULT_IMAGE_TOKEN G) inputs \<noteq> 1
            \<longrightarrow> generate G self image_path prompt = Inl AssertionError)
       \<and> (py_count (DEFAULT_IMAGE_TOKEN G) inputs = 1
            \<longrightarrow> (\<exists>a b. split_from (DEFAULT_IMAGE_TOKEN G) [] inputs = [a, b]
                  \<and> generate G self image_path prompt =
                      bind (llm_generate G self
                              (tok_encode (tokenizer self) True a @ [IMAGE_TOKEN_INDEX G]
                                 @ tok_encode (tokenizer self) False b) pv)
                        (\<lambda>generate_output.
                           Inr (py_strip (tok_decode (tokenizer self) generate_output)))))"
proof -
  let ?tok = "DEFAULT_IMAGE_TOKEN G"
  have len: "length (split_from ?tok [] inputs) = Suc (py_count ?tok inputs)"
    by (rule length_split_from [OF assms(3)])
  have fail: "generate G self image_path prompt = Inl AssertionError"
    if "py_count ?tok inputs \<noteq> 1"
    using that len
    by (simp add: generate_unfold [OF assms] length_encode_chunks py_assert_def bind_def)
  have zero: "py_count ?tok inputs \<noteq> 1" if "\<forall>i. \<not> occurs_at ?tok inputs i"
    using that py_count_zero [OF assms(3), of inputs] by simp
  have two: "py_count ?tok inputs \<noteq> 1"
    if "\<exists>i j. occurs_at ?tok inputs i \<and> occurs_at ?tok inputs j \<and> i + length ?tok \<le> j"
  proof -
    from that obtain i j where "occurs_at ?tok inputs i" "occurs_at ?tok inputs j"
      "i + length ?tok \<le> j" by blast
    then have "2 \<le> py_count ?tok inputs" by (rule py_count_two [OF assms(3)])
    then show ?thesis by simp
  qed
  have one: "\<exists>a b. split_from ?tok [] inputs = [a, b]
                  \<and> generate G self image_path prompt =
                      bind (llm_generate G self
                              (tok_encode (tokenizer self) True a @ [IMAGE_TOKEN_INDEX G]
                                 @ tok_encode (tokenizer self) False b) pv)
                        (\<lambda>generate_output.
                           Inr (py_strip (tok_decode (tokenizer self) generate_output)))"
    if "py_count ?tok inputs = 1"
  proof -
    have "length (split_from ?tok [] inputs) = 2" using that len by simp
    then obtain a b where ab: "split_from ?tok [] inputs = [a, b]" using split_two by blast
    show ?thesis
      using ab by (simp add: generate_unfold [OF assms] splice_two length_encode_chunks py_assert_def bind_def)
  qed
  have iff: "length (split_from ?tok [] inputs) \<noteq> 2 \<longleftrightarrow> py_count ?tok inputs \<noteq> 1"
    using len by simp
  show ?thesis
  proof (intro conjI impI)
    assume "\<forall>i. \<not> occurs_at ?tok inputs i"
    then show "generate G self image_path prompt = Inl AssertionError"
      using fail zero by blast
  next
    assume "\<exists>i j. occurs_at ?tok inputs i \<and> occurs_at ?tok inputs j \<and> i + length ?tok \<le> j"
    then show "generate G self image_path prompt = Inl AssertionError"
      using fail two by blast
  next
    show "length (split_from ?tok [] inputs) \<noteq> 2 \<longleftrightarrow> py_count ?tok inputs \<noteq> 1"
      by (rule iff)
  next
    assume "py_count ?tok inputs \<noteq> 1"
    then show "generate G self image_path prompt = Inl AssertionError"
      by (rule fail)
  next
    assume "py_count ?tok inputs = 1"
    then show "\<exists>a b. split_from ?tok [] inputs = [a, b]
                  \<and> generate G self image_path prompt =
                      bind (llm_generate G self
                              (tok_encode (tokenizer self) True a @ [IMAGE_TOKEN_INDEX G]
                                 @ tok_encode (tokenizer self) False b) pv)
                        (\<lambda>generate_output.
                           Inr (py_strip (tok_decode (tokenizer self) generate_output)))"
      by (rule one)
  qed
qed

theorem generate_placeholder_invariant_witness:
  "generate example_gen_env example_adapter (S ''images/MMBench/7.jpg'') (S ''see <image> here'')
     = Inl AssertionError"
proof -
  have a: "encode_image example_gen_env example_adapter (S ''images/MMBench/7.jpg'') = Inr 9"
    by (simp add: example_gen_env_def)
  have b: "compose_inputs example_gen_env example_adapter (S ''see <image> here'')
      = Inr (S ''<image>\<newline>see <image> here'')"
    by (simp add: compose_inputs_def example_gen_env_def example_adapter_def newline_def S_def)
  have c: "DEFAULT_IMAGE_TOKEN example_gen_env \<noteq> []"
    by (simp add: example_gen_env_def S_def)
  have d: "occurs_at (DEFAULT_IMAGE_TOKEN example_gen_env) (S ''<image>\<newline>see <image> here'') 0
      \<and> occurs_at (DEFAULT_IMAGE_TOKEN example_gen_env) (S ''<image>\<newline>see <image> here'') 12
      \<and> 0 + length (DEFAULT_IMAGE_TOKEN example_gen_env) \<le> 12"
    by (simp add: occurs_at_def example_gen_env_def S_def)
  have e: "\<exists>i j. occurs_at (DEFAULT_IMAGE_TOKEN example_gen_env) (S ''<image>\<newline>see <image> here'') i
      \<and> occurs_at (DEFAULT_IMAGE_TOKEN example_gen_env) (S ''<image>\<newline>see <image> here'') j
      \<and> i + length (DEFAULT_IMAGE_TOKEN example_gen_env) \<le> j"
    using d by (intro exI [of _ 0] exI [of _ 12])
  show ?thesis
    using generate_placeholder_invariant [OF a b c, THEN conjunct2, THEN conjunct1] e
    by (rule mp)
qed

end
